theory Spec2Isabelle
  imports Complex_Main "HOL-Library.Sublist"
begin

section \<open>Registry (src/core/registry.ts)\<close>

text \<open>
  The registry of \<^verbatim>\<open>createRegistry\<close>: two maps, the set of allocated indices, the
  free list and the counter. \<^verbatim>\<open>ReactiveMap\<close> and \<^verbatim>\<open>ReactiveSet\<close> are used through the
  interface of \<^verbatim>\<open>Map\<close> and \<^verbatim>\<open>Set\<close>. A \<^verbatim>\<open>Set\<close> iterates in insertion order, so
  \<^verbatim>\<open>allocatedIndices\<close> is a list without duplicates here: \<open>set_add\<close> is \<^verbatim>\<open>Set.add\<close>
  and \<open>set_delete\<close> is \<^verbatim>\<open>Set.delete\<close>.
\<close>

record registry =
  idToIndex :: "string \<rightharpoonup> nat"
  indexToId :: "nat \<rightharpoonup> string"
  allocatedIndices :: "nat list"
  freeIndices :: "nat list"
  nextIndex :: nat

definition set_add :: "'a \<Rightarrow> 'a list \<Rightarrow> 'a list" where
  "set_add x xs = (if x \<in> set xs then xs else xs @ [x])"

definition set_delete :: "'a \<Rightarrow> 'a list \<Rightarrow> 'a list" where
  "set_delete x xs = removeAll x xs"

definition createRegistry :: registry where
  "createRegistry =
     \<lparr>idToIndex = Map.empty, indexToId = Map.empty, allocatedIndices = [],
      freeIndices = [], nextIndex = 0\<rparr>"

text \<open>
  \<^verbatim>\<open>allocate(id)\<close>: an id that has an index keeps it; otherwise the last free index is
  popped, or the counter is taken and incremented, and the mappings are stored.
\<close>

definition allocate :: "registry \<Rightarrow> string \<Rightarrow> nat \<times> registry" where
  "allocate r ident =
     (case idToIndex r ident of
        Some existingIndex \<Rightarrow> (existingIndex, r)
      | None \<Rightarrow>
          let (index, r1) =
                (if length (freeIndices r) > 0
                 then (last (freeIndices r), r\<lparr>freeIndices := butlast (freeIndices r)\<rparr>)
                 else (nextIndex r, r\<lparr>nextIndex := nextIndex r + 1\<rparr>))
          in (index,
              r1\<lparr>idToIndex := (idToIndex r1)(ident \<mapsto> index),
                 indexToId := (indexToId r1)(index \<mapsto> ident),
                 allocatedIndices := set_add index (allocatedIndices r1)\<rparr>))"

text \<open>\<^verbatim>\<open>release(id)\<close>: false for an unknown id; otherwise the mappings are cleared and the
  index is pushed on the free list.\<close>

definition release :: "registry \<Rightarrow> string \<Rightarrow> bool \<times> registry" where
  "release r ident =
     (case idToIndex r ident of
        None \<Rightarrow> (False, r)
      | Some index \<Rightarrow>
          (True,
           r\<lparr>idToIndex := (idToIndex r)(ident := None),
             indexToId := (indexToId r)(index := None),
             allocatedIndices := set_delete index (allocatedIndices r),
             freeIndices := freeIndices r @ [index]\<rparr>))"

text \<open>\<^verbatim>\<open>getIndex\<close> returns \<open>-1\<close> for an unknown id.\<close>

definition getIndex :: "registry \<Rightarrow> string \<Rightarrow> int" where
  "getIndex r ident = (case idToIndex r ident of Some i \<Rightarrow> int i | None \<Rightarrow> - 1)"

definition getId :: "registry \<Rightarrow> nat \<Rightarrow> string option" where
  "getId r index = indexToId r index"

definition has :: "registry \<Rightarrow> string \<Rightarrow> bool" where
  "has r ident = (idToIndex r ident \<noteq> None)"

definition getAllIndices :: "registry \<Rightarrow> nat list" where
  "getAllIndices r = allocatedIndices r"

definition reset :: "registry \<Rightarrow> registry" where
  "reset r = createRegistry"

text \<open>A sequence of calls on a registry.\<close>

datatype reg_op = Allocate string | Release string

fun reg_step :: "registry \<Rightarrow> reg_op \<Rightarrow> registry" where
  "reg_step r (Allocate ident) = snd (allocate r ident)"
| "reg_step r (Release ident) = snd (release r ident)"

definition run_ops :: "reg_op list \<Rightarrow> registry" where
  "run_ops ops = foldl reg_step createRegistry ops"

text \<open>
  Consistency of the two maps, the allocated set and the free list, as the registry's
  contract words it.
\<close>

definition reg_consistent :: "registry \<Rightarrow> bool" where
  "reg_consistent r \<longleftrightarrow>
     (\<forall>ident i. idToIndex r ident = Some i \<longleftrightarrow> indexToId r i = Some ident) \<and>
     set (allocatedIndices r) = ran (idToIndex r) \<and>
     set (allocatedIndices r) \<inter> set (freeIndices r) = {}"

text \<open>The inductive strengthening: no duplicates, and every index below the counter is
  either allocated or free.\<close>

definition reg_inv :: "registry \<Rightarrow> bool" where
  "reg_inv r \<longleftrightarrow>
     reg_consistent r \<and>
     distinct (allocatedIndices r) \<and>
     distinct (freeIndices r) \<and>
     (\<forall>i. i < nextIndex r \<longleftrightarrow> i \<in> set (allocatedIndices r) \<or> i \<in> set (freeIndices r))"

section \<open>Values (src/core/types.ts, src/core/constants.ts)\<close>

text \<open>
  A JavaScript number that a caller supplies is a real here: rounding, infinities and a
  NaN passed in from outside are left out. \<open>NaN\<close> is kept as the result of arithmetic
  on \<^verbatim>\<open>undefined\<close>, which the code can produce by reading a typed array past its end.
\<close>

datatype jsnum = Num real | NaN

text \<open>The values a column holds. \<open>VVec\<close> is a \<^verbatim>\<open>Float32Array\<close>; its elements can be NaN,
  since \<^verbatim>\<open>new Float32Array\<close> of an array of strings converts each string.
  \<open>VInherited k\<close> is the member \<open>k\<close> of \<^verbatim>\<open>Object.prototype\<close> (a function, or the prototype
  itself for \<^verbatim>\<open>__proto__\<close>), which a read of a plain object yields for a key it does not
  own.\<close>

datatype jsval =
    VNull
  | VUndefined
  | VBool bool
  | VNum real
  | VStr string
  | VStrArr "string list"
  | VNumArr "real list"
  | VVec "jsnum list"
  | VInherited string

text \<open>The column types of \<^verbatim>\<open>parseColumnType\<close>, already parsed: \<^verbatim>\<open>createColumns\<close> parses
  the whole schema first and throws on any other type string.\<close>

datatype column_type =
  TString | TNumber | TBoolean | TTimestamp | TStringArr | TNumberArr | TVector nat

type_synonym schema = "(string \<times> column_type) list"

fun getDefaultValue :: "column_type \<Rightarrow> jsval" where
  "getDefaultValue TString = VStr []"
| "getDefaultValue TNumber = VNum 0"
| "getDefaultValue TTimestamp = VNum 0"
| "getDefaultValue TBoolean = VBool False"
| "getDefaultValue TStringArr = VStrArr []"
| "getDefaultValue TNumberArr = VNumArr []"
| "getDefaultValue (TVector d) = VNull"

datatype error =
    UnknownColumn string
  | TypeError
  | NoIdForIndex nat
  | DimensionMismatch nat nat

text \<open>\<^verbatim>\<open>Array.isArray\<close>, and \<^verbatim>\<open>new Float32Array(array)\<close>. The conversion of a string to a
  number is a built-in of the platform, taken as the parameter \<open>tn\<close>.\<close>

fun isArray :: "jsval \<Rightarrow> bool" where
  "isArray (VStrArr ss) = True"
| "isArray (VNumArr xs) = True"
| "isArray v = False"

fun newFloat32Array :: "(string \<Rightarrow> jsnum) \<Rightarrow> jsval \<Rightarrow> jsval" where
  "newFloat32Array tn (VNumArr xs) = VVec (map Num xs)"
| "newFloat32Array tn (VStrArr ss) = VVec (map tn ss)"
| "newFloat32Array tn v = v"

text \<open>
  A record passed to the store is a plain object: its own properties are an
  association list, and it inherits the members of \<^verbatim>\<open>Object.prototype\<close>. \<open>has_property\<close> is
  the operator \<^verbatim>\<open>in\<close>, \<open>get_property\<close> the read \<^verbatim>\<open>obj[key]\<close>.
\<close>

definition object_prototype_keys :: "string list" where
  "object_prototype_keys =
     [''constructor'', ''__defineGetter__'', ''__defineSetter__'', ''hasOwnProperty'',
      ''__lookupGetter__'', ''__lookupSetter__'', ''isPrototypeOf'', ''propertyIsEnumerable'',
      ''toString'', ''valueOf'', ''__proto__'', ''toLocaleString'']"

definition has_property :: "(string \<times> jsval) list \<Rightarrow> string \<Rightarrow> bool" where
  "has_property obj key \<longleftrightarrow> key \<in> set (map fst obj) \<or> key \<in> set object_prototype_keys"

definition get_property :: "(string \<times> jsval) list \<Rightarrow> string \<Rightarrow> jsval" where
  "get_property obj key =
     (case map_of obj key of
        Some v \<Rightarrow> v
      | None \<Rightarrow> if key \<in> set object_prototype_keys then VInherited key else VUndefined)"

section \<open>Columns manager (createColumns)\<close>

text \<open>
  The manager closes over the schema \<^verbatim>\<open>definition\<close> and the map \<^verbatim>\<open>columns\<close> from a column
  name to its array.
\<close>

record columns =
  col_definition :: schema
  column_map :: "string \<rightharpoonup> jsval list"

definition createColumns :: "schema \<Rightarrow> columns" where
  "createColumns sch =
     \<lparr>col_definition = sch,
      column_map = (\<lambda>col. if col \<in> set (map fst sch) then Some [] else None)\<rparr>"

text \<open>\<^verbatim>\<open>get(column, index)\<close>: an unknown column throws; an index past the end of the array
  reads \<^verbatim>\<open>undefined\<close>.\<close>

definition col_get :: "columns \<Rightarrow> string \<Rightarrow> nat \<Rightarrow> error + jsval" where
  "col_get c column index =
     (case column_map c column of
        None \<Rightarrow> Inl (UnknownColumn column)
      | Some arr \<Rightarrow> Inr (if index < length arr then arr ! index else VUndefined))"

text \<open>The value \<^verbatim>\<open>set\<close> stores: an array written to a vector column becomes a
  \<^verbatim>\<open>Float32Array\<close>.\<close>

definition stored_value :: "(string \<Rightarrow> jsnum) \<Rightarrow> schema \<Rightarrow> string \<Rightarrow> jsval \<Rightarrow> jsval" where
  "stored_value tn sch column v =
     (case map_of sch column of
        Some (TVector d) \<Rightarrow> if isArray v then newFloat32Array tn v else v
      | _ \<Rightarrow> v)"

text \<open>
  \<^verbatim>\<open>set(column, index, value)\<close>: an unknown column throws. The array is filled with the
  column's default up to \<open>index\<close>; \<^verbatim>\<open>getDefaultValue(definition[column])\<close> throws a
  TypeError when the definition has no such key. Then the value is stored.
\<close>

definition col_set ::
  "(string \<Rightarrow> jsnum) \<Rightarrow> columns \<Rightarrow> string \<Rightarrow> nat \<Rightarrow> jsval \<Rightarrow> error + columns" where
  "col_set tn c column index v =
     (case column_map c column of
        None \<Rightarrow> Inl (UnknownColumn column)
      | Some arr \<Rightarrow>
          if length arr \<le> index then
            (case map_of (col_definition c) column of
               None \<Rightarrow> Inl TypeError
             | Some t \<Rightarrow>
                 Inr (c\<lparr>column_map := (column_map c)
                        (column \<mapsto>
                           (arr @ replicate (Suc index - length arr) (getDefaultValue t))
                             [index := stored_value tn (col_definition c) column v])\<rparr>))
          else
            Inr (c\<lparr>column_map := (column_map c)
                   (column \<mapsto> arr[index := stored_value tn (col_definition c) column v])\<rparr>))"

text \<open>\<^verbatim>\<open>getRecord(index)\<close>: the fields in schema order.\<close>

fun getRecord_loop :: "columns \<Rightarrow> nat \<Rightarrow> string list \<Rightarrow> error + (string \<times> jsval) list" where
  "getRecord_loop c index [] = Inr []"
| "getRecord_loop c index (col # rest) =
     (case col_get c col index of
        Inl e \<Rightarrow> Inl e
      | Inr v \<Rightarrow>
          (case getRecord_loop c index rest of
             Inl e \<Rightarrow> Inl e
           | Inr vs \<Rightarrow> Inr ((col, v) # vs)))"

definition getRecord :: "columns \<Rightarrow> nat \<Rightarrow> error + (string \<times> jsval) list" where
  "getRecord c index = getRecord_loop c index (map fst (col_definition c))"

text \<open>
  \<^verbatim>\<open>setRecord(index, record)\<close>: every schema column is written, with the record's value
  when \<^verbatim>\<open>col in record\<close> and with the type's default otherwise. A throw leaves the
  columns written so far, so the error comes with the state reached.
\<close>

fun setRecord_loop ::
  "(string \<Rightarrow> jsnum) \<Rightarrow> columns \<Rightarrow> nat \<Rightarrow> (string \<times> jsval) list \<Rightarrow> schema
     \<Rightarrow> (error \<times> columns) + columns" where
  "setRecord_loop tn c index record [] = Inr c"
| "setRecord_loop tn c index record ((col, t) # rest) =
     (case col_set tn c col index
             (if has_property record col then get_property record col else getDefaultValue t) of
        Inl e \<Rightarrow> Inl (e, c)
      | Inr c' \<Rightarrow> setRecord_loop tn c' index record rest)"

definition setRecord ::
  "(string \<Rightarrow> jsnum) \<Rightarrow> columns \<Rightarrow> nat \<Rightarrow> (string \<times> jsval) list \<Rightarrow> (error \<times> columns) + columns" where
  "setRecord tn c index record = setRecord_loop tn c index record (col_definition c)"

text \<open>\<^verbatim>\<open>clearAt(index)\<close>: every schema column is set to its default.\<close>

fun clearAt_loop ::
  "(string \<Rightarrow> jsnum) \<Rightarrow> columns \<Rightarrow> nat \<Rightarrow> schema \<Rightarrow> (error \<times> columns) + columns" where
  "clearAt_loop tn c index [] = Inr c"
| "clearAt_loop tn c index ((col, t) # rest) =
     (case col_set tn c col index (getDefaultValue t) of
        Inl e \<Rightarrow> Inl (e, c)
      | Inr c' \<Rightarrow> clearAt_loop tn c' index rest)"

definition clearAt :: "(string \<Rightarrow> jsnum) \<Rightarrow> columns \<Rightarrow> nat \<Rightarrow> (error \<times> columns) + columns" where
  "clearAt tn c index = clearAt_loop tn c index (col_definition c)"

section \<open>Collection (src/core/collection.ts)\<close>

text \<open>
  The metadata arrays are JavaScript arrays written by index: a write past the end
  leaves holes, which read as \<^verbatim>\<open>undefined\<close> (\<open>None\<close>).
\<close>

definition js_read :: "'a option list \<Rightarrow> nat \<Rightarrow> 'a option" where
  "js_read arr i = (if i < length arr then arr ! i else None)"

definition js_write :: "'a option list \<Rightarrow> nat \<Rightarrow> 'a \<Rightarrow> 'a option list" where
  "js_write arr i v =
     (if i < length arr then arr[i := Some v]
      else arr @ replicate (i - length arr) None @ [Some v])"

text \<open>\<^verbatim>\<open>while (arr.length <= index) arr.push(d)\<close>\<close>

definition push_until :: "'a option list \<Rightarrow> nat \<Rightarrow> 'a \<Rightarrow> 'a option list" where
  "push_until arr index d = arr @ replicate (Suc index - length arr) (Some d)"

record collection =
  contentColumn :: "string option"
  registry :: registry
  columns :: columns
  created :: "int option list"
  updated :: "int option list"
  stale :: "bool option list"

definition createCollection :: "schema \<Rightarrow> string option \<Rightarrow> collection" where
  "createCollection sch content =
     \<lparr>contentColumn = content, registry = createRegistry, columns = createColumns sch,
      created = [], updated = [], stale = []\<rparr>"

text \<open>A materialised record: the fields read from the columns, then id and metadata.\<close>

record record_with_meta =
  rfields :: "(string \<times> jsval) list"
  rid :: string
  rcreated :: int
  rupdated :: int
  rstale :: bool

text \<open>\<^verbatim>\<open>buildRecord(index)\<close> throws when the index has no id or the id is the empty string
  (\<^verbatim>\<open>!id\<close>).\<close>

definition buildRecord :: "collection \<Rightarrow> nat \<Rightarrow> error + record_with_meta" where
  "buildRecord c index =
     (case getId (registry c) index of
        None \<Rightarrow> Inl (NoIdForIndex index)
      | Some ident \<Rightarrow>
          if ident = [] then Inl (NoIdForIndex index)
          else
            (case getRecord (columns c) index of
               Inl e \<Rightarrow> Inl e
             | Inr data \<Rightarrow>
                 Inr \<lparr>rfields = data, rid = ident,
                      rcreated = (case js_read (created c) index of Some t \<Rightarrow> t | None \<Rightarrow> 0),
                      rupdated = (case js_read (updated c) index of Some t \<Rightarrow> t | None \<Rightarrow> 0),
                      rstale = (case js_read (stale c) index of Some b \<Rightarrow> b | None \<Rightarrow> False)\<rparr>))"

definition setMetadataAt :: "collection \<Rightarrow> nat \<Rightarrow> int \<Rightarrow> int \<Rightarrow> bool \<Rightarrow> collection" where
  "setMetadataAt c index cr up st =
     c\<lparr>created := (push_until (created c) index 0)[index := Some cr],
       updated := (push_until (updated c) index 0)[index := Some up],
       stale := (push_until (stale c) index False)[index := Some st]\<rparr>"

text \<open>
  \<^verbatim>\<open>insert(data)\<close>. The clock \<open>now\<close> and the generated id \<open>gen\<close> are inputs. The id is
  \<^verbatim>\<open>data.id ?? generateId()\<close>; the declared type of \<^verbatim>\<open>data.id\<close> is a string or undefined.
  The result is the thrown error or the returned id, with the state reached.
\<close>

definition insert_id :: "(string \<times> jsval) list \<Rightarrow> string \<Rightarrow> string" where
  "insert_id data gen = (case map_of data ''id'' of Some (VStr s) \<Rightarrow> s | _ \<Rightarrow> gen)"

definition insert_record ::
  "(string \<Rightarrow> jsnum) \<Rightarrow> collection \<Rightarrow> (string \<times> jsval) list \<Rightarrow> int \<Rightarrow> string
     \<Rightarrow> (error + string) \<times> collection" where
  "insert_record tn c data now gen =
     (let ident = insert_id data gen;
          (index, reg) = allocate (registry c) ident;
          c1 = c\<lparr>registry := reg\<rparr>
      in case setRecord tn (columns c1) index data of
           Inl (e, cols) \<Rightarrow> (Inl e, c1\<lparr>columns := cols\<rparr>)
         | Inr cols \<Rightarrow> (Inr ident, setMetadataAt (c1\<lparr>columns := cols\<rparr>) index now now False))"

text \<open>\<^verbatim>\<open>get(id)\<close>: \<open>None\<close> is \<^verbatim>\<open>undefined\<close>.\<close>

definition get :: "collection \<Rightarrow> string \<Rightarrow> error + record_with_meta option" where
  "get c ident =
     (if getIndex (registry c) ident = - 1 then Inr None
      else (case buildRecord c (nat (getIndex (registry c) ident)) of
              Inl e \<Rightarrow> Inl e
            | Inr r \<Rightarrow> Inr (Some r)))"

text \<open>\<^verbatim>\<open>update(id, data)\<close>: the keys of \<open>data\<close> are written in order, then the timestamp.\<close>

fun update_loop ::
  "(string \<Rightarrow> jsnum) \<Rightarrow> columns \<Rightarrow> nat \<Rightarrow> (string \<times> jsval) list \<Rightarrow> string list
     \<Rightarrow> (error \<times> columns) + columns" where
  "update_loop tn c index data [] = Inr c"
| "update_loop tn c index data (key # rest) =
     (case col_set tn c key index (case map_of data key of Some v \<Rightarrow> v | None \<Rightarrow> VUndefined) of
        Inl e \<Rightarrow> Inl (e, c)
      | Inr c' \<Rightarrow> update_loop tn c' index data rest)"

definition update ::
  "(string \<Rightarrow> jsnum) \<Rightarrow> collection \<Rightarrow> string \<Rightarrow> (string \<times> jsval) list \<Rightarrow> int
     \<Rightarrow> (error + bool) \<times> collection" where
  "update tn c ident data now =
     (if getIndex (registry c) ident = - 1 then (Inr False, c)
      else
        let index = nat (getIndex (registry c) ident)
        in case update_loop tn (columns c) index data (map fst data) of
             Inl (e, cols) \<Rightarrow> (Inl e, c\<lparr>columns := cols\<rparr>)
           | Inr cols \<Rightarrow>
               (Inr True, c\<lparr>columns := cols, updated := js_write (updated c) index now\<rparr>))"

text \<open>\<^verbatim>\<open>delete(id)\<close>: the columns and the metadata at the slot are cleared, then the id is
  released.\<close>

definition clear_meta :: "'a option list \<Rightarrow> nat \<Rightarrow> 'a \<Rightarrow> 'a option list" where
  "clear_meta arr index d = (if index < length arr then arr[index := Some d] else arr)"

definition delete ::
  "(string \<Rightarrow> jsnum) \<Rightarrow> collection \<Rightarrow> string \<Rightarrow> (error + bool) \<times> collection" where
  "delete tn c ident =
     (if getIndex (registry c) ident = - 1 then (Inr False, c)
      else
        let index = nat (getIndex (registry c) ident)
        in case clearAt tn (columns c) index of
             Inl (e, cols) \<Rightarrow> (Inl e, c\<lparr>columns := cols\<rparr>)
           | Inr cols \<Rightarrow>
               (Inr True,
                c\<lparr>columns := cols,
                  created := clear_meta (created c) index 0,
                  updated := clear_meta (updated c) index 0,
                  stale := clear_meta (stale c) index False,
                  registry := snd (release (registry c) ident)\<rparr>))"

text \<open>\<^verbatim>\<open>getByIndex\<close>, \<^verbatim>\<open>getIndices\<close>, \<^verbatim>\<open>isStale\<close>.\<close>

definition getByIndex :: "collection \<Rightarrow> nat \<Rightarrow> error + record_with_meta option" where
  "getByIndex c index =
     (if index \<notin> set (allocatedIndices (registry c)) then Inr None
      else (case buildRecord c index of Inl e \<Rightarrow> Inl e | Inr r \<Rightarrow> Inr (Some r)))"

definition getIndices :: "collection \<Rightarrow> nat list" where
  "getIndices c = getAllIndices (registry c)"

definition isStale :: "collection \<Rightarrow> string \<Rightarrow> bool" where
  "isStale c ident =
     (if getIndex (registry c) ident = - 1 then False
      else (case js_read (stale c) (nat (getIndex (registry c) ident)) of
              Some b \<Rightarrow> b | None \<Rightarrow> False))"

text \<open>
  What \<^verbatim>\<open>createCollection\<close> establishes and every operation keeps: the schema has no
  repeated key (it is an object), and every schema column has its array.
\<close>

definition columns_wf :: "columns \<Rightarrow> bool" where
  "columns_wf c \<longleftrightarrow>
     distinct (map fst (col_definition c)) \<and>
     (\<forall>col \<in> set (map fst (col_definition c)). column_map c col \<noteq> None)"

text \<open>The three loops over \<^verbatim>\<open>set\<close> are instances of one loop over key/value pairs; this
  form is used in the proofs only.\<close>

fun col_set_list ::
  "(string \<Rightarrow> jsnum) \<Rightarrow> columns \<Rightarrow> nat \<Rightarrow> (string \<times> jsval) list
     \<Rightarrow> (error \<times> columns) + columns" where
  "col_set_list tn c index [] = Inr c"
| "col_set_list tn c index ((k, v) # rest) =
     (case col_set tn c k index v of
        Inl e \<Rightarrow> Inl (e, c)
      | Inr c' \<Rightarrow> col_set_list tn c' index rest)"

definition collection_wf :: "collection \<Rightarrow> bool" where
  "collection_wf c \<longleftrightarrow> columns_wf (columns c)"

section \<open>Vector search (src/vector/search.ts)\<close>

text \<open>Arithmetic on numbers. The divisor is tested before each division in the code,
  so a division by zero is never evaluated.\<close>

fun jadd :: "jsnum \<Rightarrow> jsnum \<Rightarrow> jsnum" where
  "jadd (Num a) (Num b) = Num (a + b)"
| "jadd a b = NaN"

fun jmul :: "jsnum \<Rightarrow> jsnum \<Rightarrow> jsnum" where
  "jmul (Num a) (Num b) = Num (a * b)"
| "jmul a b = NaN"

fun jsub :: "jsnum \<Rightarrow> jsnum \<Rightarrow> jsnum" where
  "jsub (Num a) (Num b) = Num (a - b)"
| "jsub a b = NaN"

fun jdiv :: "jsnum \<Rightarrow> jsnum \<Rightarrow> jsnum" where
  "jdiv (Num a) (Num b) = (if b = 0 then NaN else Num (a / b))"
| "jdiv a b = NaN"

fun jsqrt :: "jsnum \<Rightarrow> jsnum" where
  "jsqrt (Num a) = (if a < 0 then NaN else Num (sqrt a))"
| "jsqrt NaN = NaN"

text \<open>\<^verbatim>\<open>a < b\<close> is false when an operand is NaN.\<close>

fun jless :: "jsnum \<Rightarrow> jsnum \<Rightarrow> bool" where
  "jless (Num a) (Num b) = (a < b)"
| "jless a b = False"

text \<open>Reading a typed array at \<open>i\<close>: past the end the read is \<^verbatim>\<open>undefined\<close>, which every
  use below multiplies, giving NaN.\<close>

definition f32_read :: "jsnum list \<Rightarrow> nat \<Rightarrow> jsnum" where
  "f32_read xs i = (if i < length xs then xs ! i else NaN)"



text \<open>Truthiness of a column value (\<^verbatim>\<open>if (vec)\<close>, \<^verbatim>\<open>if (!vec) continue\<close>).\<close>

fun truthy :: "jsval \<Rightarrow> bool" where
  "truthy VNull = False"
| "truthy VUndefined = False"
| "truthy (VBool b) = b"
| "truthy (VNum r) = (r \<noteq> 0)"
| "truthy (VStr s) = (s \<noteq> [])"
| "truthy (VStrArr ss) = True"
| "truthy (VNumArr xs) = True"
| "truthy (VVec xs) = True"
| "truthy (VInherited k) = True"

text \<open>
  \<^verbatim>\<open>vec[j]\<close> as an operand of a product, for the value the column holds (the code
  casts it to \<^verbatim>\<open>Float32Array\<close>): an element of a string array or a character of a string
  is converted by \<open>tn\<close>; a number, a boolean or a member of \<^verbatim>\<open>Object.prototype\<close> has no
  element. A falsy value is skipped before any read.
\<close>

fun vec_elem :: "(string \<Rightarrow> jsnum) \<Rightarrow> jsval \<Rightarrow> nat \<Rightarrow> jsnum" where
  "vec_elem tn (VVec xs) j = f32_read xs j"
| "vec_elem tn (VNumArr xs) j = (if j < length xs then Num (xs ! j) else NaN)"
| "vec_elem tn (VStrArr ss) j = (if j < length ss then tn (ss ! j) else NaN)"
| "vec_elem tn (VStr s) j = (if j < length s then tn [s ! j] else NaN)"
| "vec_elem tn v j = NaN"

text \<open>The query norm, and the dot product and norm of one candidate over
  \<open>0 ..< length query\<close>.\<close>

definition query_norm :: "jsnum list \<Rightarrow> jsnum" where
  "query_norm query =
     jsqrt (foldl (\<lambda>acc i. jadd acc (jmul (f32_read query i) (f32_read query i)))
              (Num 0) [0..<length query])"

definition batch_step ::
  "(string \<Rightarrow> jsnum) \<Rightarrow> jsnum list \<Rightarrow> jsval \<Rightarrow> jsnum \<times> jsnum \<Rightarrow> nat \<Rightarrow> jsnum \<times> jsnum" where
  "batch_step tn query vec acc j =
     (case acc of (dot, vecNorm) \<Rightarrow>
        (jadd dot (jmul (f32_read query j) (vec_elem tn vec j)),
         jadd vecNorm (jmul (vec_elem tn vec j) (vec_elem tn vec j))))"

text \<open>The loop over the candidates: a falsy vector and a vector of norm 0 are skipped.\<close>

fun batch_scores ::
  "(string \<Rightarrow> jsnum) \<Rightarrow> jsnum list \<Rightarrow> jsnum \<Rightarrow> (jsval \<times> nat) list \<Rightarrow> (nat \<times> jsnum) list" where
  "batch_scores tn query queryNorm [] = []"
| "batch_scores tn query queryNorm ((vec, index) # rest) =
     (if \<not> truthy vec then batch_scores tn query queryNorm rest
      else
        (case foldl (batch_step tn query vec) (Num 0, Num 0) [0..<length query] of
           (dot, vecNorm0) \<Rightarrow>
             let vecNorm = jsqrt vecNorm0
             in if vecNorm = Num 0 then batch_scores tn query queryNorm rest
                else (index, jdiv dot (jmul queryNorm vecNorm))
                       # batch_scores tn query queryNorm rest))"

text \<open>
  \<^verbatim>\<open>results.sort((a, b) => b.similarity - a.similarity)\<close>. The sort is stable, and a
  comparator result of NaN counts as 0. \<open>stays_before a b\<close> says that the comparator
  does not put \<open>b\<close> before \<open>a\<close>. For similarities that are all numbers the result of
  a stable sort is determined; when one is NaN the comparator is inconsistent and
  the order is the engine's choice, which this insertion sort does not claim to
  reproduce.
\<close>

definition stays_before :: "nat \<times> jsnum \<Rightarrow> nat \<times> jsnum \<Rightarrow> bool" where
  "stays_before a b = (\<not> jless (Num 0) (jsub (snd b) (snd a)))"

fun insort_cmp :: "nat \<times> jsnum \<Rightarrow> (nat \<times> jsnum) list \<Rightarrow> (nat \<times> jsnum) list" where
  "insort_cmp x [] = [x]"
| "insort_cmp x (y # ys) = (if stays_before x y then x # y # ys else y # insort_cmp x ys)"

definition js_sort :: "(nat \<times> jsnum) list \<Rightarrow> (nat \<times> jsnum) list" where
  "js_sort xs = foldr insort_cmp xs []"

text \<open>\<^verbatim>\<open>slice(0, k)\<close>: a negative \<open>k\<close> counts from the end.\<close>

definition slice0 :: "'a list \<Rightarrow> int \<Rightarrow> 'a list" where
  "slice0 xs k = (if k < 0 then take (nat (int (length xs) + k)) xs else take (nat k) xs)"

definition batchCosineSimilarity ::
  "(string \<Rightarrow> jsnum) \<Rightarrow> jsnum list \<Rightarrow> (jsval \<times> nat) list \<Rightarrow> int \<Rightarrow> (nat \<times> jsnum) list" where
  "batchCosineSimilarity tn query vectors topK =
     (let queryNorm = query_norm query
      in if queryNorm = Num 0 then []
         else slice0 (js_sort (batch_scores tn query queryNorm vectors)) topK)"

text \<open>The options of \<^verbatim>\<open>vectorSearch\<close>; an absent option takes its default (10, 0, no
  filter).\<close>

record search_options =
  topK :: "int option"
  minSimilarity :: "real option"
  filter_fn :: "((string \<times> jsval) list \<Rightarrow> nat \<Rightarrow> bool) option"

definition topK_or_default :: "search_options \<Rightarrow> int" where
  "topK_or_default options = (case topK options of Some k \<Rightarrow> k | None \<Rightarrow> 10)"

definition minSimilarity_or_default :: "search_options \<Rightarrow> real" where
  "minSimilarity_or_default options = (case minSimilarity options of Some m \<Rightarrow> m | None \<Rightarrow> 0)"

record search_result =
  res_record :: record_with_meta
  res_similarity :: jsnum
  res_stale :: bool

text \<open>The scan of the live slots: the pre-filter, then the read of the vector column.\<close>

fun gather ::
  "collection \<Rightarrow> string \<Rightarrow> ((string \<times> jsval) list \<Rightarrow> nat \<Rightarrow> bool) option \<Rightarrow> nat list
     \<Rightarrow> error + (jsval \<times> nat) list" where
  "gather c vectorColumn flt [] = Inr []"
| "gather c vectorColumn flt (index # rest) =
     (case (case flt of
              None \<Rightarrow> Inr True
            | Some f \<Rightarrow> (case getRecord (columns c) index of
                           Inl e \<Rightarrow> Inl e
                         | Inr data \<Rightarrow> Inr (f data index))) of
        Inl e \<Rightarrow> Inl e
      | Inr False \<Rightarrow> gather c vectorColumn flt rest
      | Inr True \<Rightarrow>
          (case col_get (columns c) vectorColumn index of
             Inl e \<Rightarrow> Inl e
           | Inr vec \<Rightarrow>
               (case gather c vectorColumn flt rest of
                  Inl e \<Rightarrow> Inl e
                | Inr vs \<Rightarrow> Inr (if truthy vec then (vec, index) # vs else vs))))"

text \<open>The loop that builds the results from the top candidates.\<close>

fun build_results :: "collection \<Rightarrow> real \<Rightarrow> (nat \<times> jsnum) list \<Rightarrow> error + search_result list" where
  "build_results c minSim [] = Inr []"
| "build_results c minSim ((index, similarity) # rest) =
     (if jless similarity (Num minSim) then build_results c minSim rest
      else
        (case getByIndex c index of
           Inl e \<Rightarrow> Inl e
         | Inr None \<Rightarrow> build_results c minSim rest
         | Inr (Some r) \<Rightarrow>
             (case build_results c minSim rest of
                Inl e \<Rightarrow> Inl e
              | Inr rs \<Rightarrow>
                  Inr (\<lparr>res_record = r, res_similarity = similarity,
                        res_stale = isStale c (rid r)\<rparr> # rs))))"

definition vectorSearch ::
  "(string \<Rightarrow> jsnum) \<Rightarrow> collection \<Rightarrow> string \<Rightarrow> jsnum list \<Rightarrow> search_options
     \<Rightarrow> error + search_result list" where
  "vectorSearch tn c vectorColumn query options =
     (let k = topK_or_default options;
          minSim = minSimilarity_or_default options
      in case gather c vectorColumn (filter_fn options) (getIndices c) of
           Inl e \<Rightarrow> Inl e
         | Inr vectors \<Rightarrow>
             build_results c minSim (batchCosineSimilarity tn query vectors k))"

section \<open>Markdown codec (src/persistence/markdown.ts)\<close>

text \<open>
  Strings are lists of 8-bit characters. The string methods the codec uses follow;
  \<open>None\<close> is the \<open>-1\<close> of \<^verbatim>\<open>indexOf\<close>. \<^verbatim>\<open>trim\<close> removes the ASCII white space (tab, line
  feed, vertical tab, form feed, carriage return, space).
\<close>

definition startsWith :: "string \<Rightarrow> string \<Rightarrow> bool" where
  "startsWith s p = (take (length p) s = p)"

definition endsWith :: "string \<Rightarrow> string \<Rightarrow> bool" where
  "endsWith s p = (length p \<le> length s \<and> drop (length s - length p) s = p)"

fun find_sub :: "string \<Rightarrow> string \<Rightarrow> nat option" where
  "find_sub pat [] = (if pat = [] then Some 0 else None)"
| "find_sub pat (c # cs) =
     (if startsWith (c # cs) pat then Some 0 else map_option Suc (find_sub pat cs))"

definition indexOf :: "string \<Rightarrow> string \<Rightarrow> nat \<Rightarrow> nat option" where
  "indexOf s pat from =
     map_option (\<lambda>j. j + min from (length s)) (find_sub pat (drop from s))"

definition slice :: "string \<Rightarrow> nat \<Rightarrow> nat \<Rightarrow> string" where
  "slice s a b = take (b - a) (drop a s)"

fun split_newline :: "string \<Rightarrow> string list" where
  "split_newline [] = [[]]"
| "split_newline (c # cs) =
     (if c = CHR 0x0A then [] # split_newline cs
      else (case split_newline cs of
              [] \<Rightarrow> [[c]]
            | l # ls \<Rightarrow> (c # l) # ls))"

definition is_space :: "char \<Rightarrow> bool" where
  "is_space c = (c \<in> {CHR 0x09, CHR 0x0A, CHR 0x0B, CHR 0x0C, CHR 0x0D, CHR '' ''})"

definition trim :: "string \<Rightarrow> string" where
  "trim s = rev (dropWhile is_space (rev (dropWhile is_space s)))"

definition join_newline :: "string list \<Rightarrow> string" where
  "join_newline ls = (case ls of [] \<Rightarrow> [] | l # rest \<Rightarrow> l @ concat (map (\<lambda>x. CHR 0x0A # x) rest))"

text \<open>Decimal digits: \<^verbatim>\<open>\d\<close>, \<^verbatim>\<open>parseInt(value, 10)\<close> and \<^verbatim>\<open>parseFloat\<close> on a string that
  matched the pattern, and the decimal form of an integer.\<close>

definition is_digit :: "char \<Rightarrow> bool" where
  "is_digit c = (c \<in> set ''0123456789'')"

definition digit_value :: "char \<Rightarrow> nat" where
  "digit_value c = (of_char c - 48)"

definition digits_value :: "string \<Rightarrow> nat" where
  "digits_value ds = foldl (\<lambda>acc c. 10 * acc + digit_value c) 0 ds"

definition all_digits :: "string \<Rightarrow> bool" where
  "all_digits ds = (ds \<noteq> [] \<and> list_all is_digit ds)"

text \<open>\<^verbatim>\<open>/^-?\d+$/\<close>\<close>

definition matches_integer :: "string \<Rightarrow> bool" where
  "matches_integer v = (case v of CHR ''-'' # ds \<Rightarrow> all_digits ds | _ \<Rightarrow> all_digits v)"

text \<open>\<^verbatim>\<open>/^-?\d+\.\d+$/\<close>\<close>

definition unsigned_decimal :: "string \<Rightarrow> bool" where
  "unsigned_decimal v =
     (all_digits (takeWhile is_digit v) \<and>
      (case dropWhile is_digit v of CHR ''.'' # fs \<Rightarrow> all_digits fs | _ \<Rightarrow> False))"

definition matches_decimal :: "string \<Rightarrow> bool" where
  "matches_decimal v = (case v of CHR ''-'' # ds \<Rightarrow> unsigned_decimal ds | _ \<Rightarrow> unsigned_decimal v)"

definition parseInt :: "string \<Rightarrow> real" where
  "parseInt v =
     (case v of CHR ''-'' # ds \<Rightarrow> - real (digits_value ds) | _ \<Rightarrow> real (digits_value v))"

definition unsigned_float :: "string \<Rightarrow> real" where
  "unsigned_float v =
     real (digits_value (takeWhile is_digit v)) +
     real (digits_value (tl (dropWhile is_digit v))) / 10 ^ length (tl (dropWhile is_digit v))"

definition parseFloat :: "string \<Rightarrow> real" where
  "parseFloat v = (case v of CHR ''-'' # ds \<Rightarrow> - unsigned_float ds | _ \<Rightarrow> unsigned_float v)"

fun show_nat :: "nat \<Rightarrow> string" where
  "show_nat n =
     (if n < 10 then [''0123456789'' ! n]
      else show_nat (n div 10) @ [''0123456789'' ! (n mod 10)])"

declare show_nat.simps [simp del]

definition show_int :: "int \<Rightarrow> string" where
  "show_int i = (if i < 0 then CHR ''-'' # show_nat (nat (- i)) else show_nat (nat i))"

text \<open>
  The built-ins whose results the codec takes as given: \<^verbatim>\<open>JSON.stringify\<close>,
  \<^verbatim>\<open>JSON.parse\<close> (\<open>None\<close> when it throws) and the string form of a number that is not
  an integer below \<open>10^21\<close> in size.
\<close>

record builtins =
  JSON_stringify :: "jsval \<Rightarrow> string"
  JSON_parse :: "string \<Rightarrow> jsval option"
  Number_toString :: "real \<Rightarrow> string"

definition number_string :: "builtins \<Rightarrow> real \<Rightarrow> string" where
  "number_string B r =
     (if r \<in> \<int> \<and> \<bar>r\<bar> < 10 ^ 21 then show_int \<lfloor>r\<rfloor> else Number_toString B r)"

text \<open>\<^verbatim>\<open>parseYamlValue\<close>, in the order of its tests.\<close>

definition parseYamlValue :: "builtins \<Rightarrow> string \<Rightarrow> jsval" where
  "parseYamlValue B v =
     (if v = ''null'' \<or> v = ''~'' \<or> v = [] then VNull
      else if v = ''true'' then VBool True
      else if v = ''false'' then VBool False
      else if matches_integer v then VNum (parseInt v)
      else if matches_decimal v then VNum (parseFloat v)
      else if startsWith v ''['' \<and> endsWith v '']'' then
        (case JSON_parse B v of Some parsed \<Rightarrow> parsed | None \<Rightarrow> VStr v)
      else if (startsWith v [CHR 0x22] \<and> endsWith v [CHR 0x22]) \<or>
              (startsWith v [CHR 0x27] \<and> endsWith v [CHR 0x27]) then
        VStr (butlast (tl v))
      else VStr v)"

text \<open>\<^verbatim>\<open>parseMarkdown\<close>: the frontmatter as a map of the object's own properties, and the
  body. An assignment to the key \<^verbatim>\<open>__proto__\<close> creates no own property.\<close>

record parsed_markdown =
  frontmatter :: "string \<rightharpoonup> jsval"
  content :: string

fun parse_lines :: "builtins \<Rightarrow> (string \<rightharpoonup> jsval) \<Rightarrow> string list \<Rightarrow> (string \<rightharpoonup> jsval)" where
  "parse_lines B fm [] = fm"
| "parse_lines B fm (line # rest) =
     (let trimmed = trim line
      in if trimmed = [] \<or> startsWith trimmed ''#'' then parse_lines B fm rest
         else
           (case indexOf trimmed '':'' 0 of
              None \<Rightarrow> parse_lines B fm rest
            | Some colonIndex \<Rightarrow>
                if trim (slice trimmed 0 colonIndex) = ''__proto__'' then parse_lines B fm rest
                else
                  parse_lines B
                    (fm (trim (slice trimmed 0 colonIndex) \<mapsto>
                           parseYamlValue B (trim (drop (colonIndex + 1) trimmed))))
                    rest))"

definition parseMarkdown :: "builtins \<Rightarrow> string \<Rightarrow> parsed_markdown" where
  "parseMarkdown B text =
     (if \<not> startsWith text ''---'' then \<lparr>frontmatter = Map.empty, content = trim text\<rparr>
      else
        (case indexOf text (CHR 0x0A # ''---'') 3 of
           None \<Rightarrow> \<lparr>frontmatter = Map.empty, content = trim text\<rparr>
         | Some endIndex \<Rightarrow>
             \<lparr>frontmatter = parse_lines B Map.empty (split_newline (slice text 4 endIndex)),
              content = trim (drop (endIndex + 4) text)\<rparr>))"

text \<open>\<^verbatim>\<open>toYamlValue\<close>.\<close>

definition needs_quotes :: "string \<Rightarrow> bool" where
  "needs_quotes s \<longleftrightarrow>
     CHR '':'' \<in> set s \<or> CHR ''#'' \<in> set s \<or> CHR 0x0A \<in> set s \<or>
     startsWith s [CHR 0x22] \<or> startsWith s [CHR 0x27] \<or>
     s = ''true'' \<or> s = ''false'' \<or> s = ''null''"

fun toYamlValue :: "builtins \<Rightarrow> jsval \<Rightarrow> string" where
  "toYamlValue B VNull = ''null''"
| "toYamlValue B VUndefined = ''null''"
| "toYamlValue B (VBool b) = (if b then ''true'' else ''false'')"
| "toYamlValue B (VNum r) = number_string B r"
| "toYamlValue B (VStrArr ss) = JSON_stringify B (VStrArr ss)"
| "toYamlValue B (VNumArr xs) = JSON_stringify B (VNumArr xs)"
| "toYamlValue B (VVec xs) = JSON_stringify B (VVec xs)"
| "toYamlValue B (VStr s) = (if needs_quotes s then JSON_stringify B (VStr s) else s)"
| "toYamlValue B (VInherited k) = JSON_stringify B (VInherited k)"

text \<open>
  A property of the record object \<^verbatim>\<open>{...data, id, created, updated, stale}\<close>: the
  metadata keys come last and win over a column of the same name.
\<close>

definition record_get :: "record_with_meta \<Rightarrow> string \<Rightarrow> jsval" where
  "record_get r key =
     (if key = ''id'' then VStr (rid r)
      else if key = ''created'' then VNum (real_of_int (rcreated r))
      else if key = ''updated'' then VNum (real_of_int (rupdated r))
      else if key = ''stale'' then VBool (rstale r)
      else get_property (rfields r) key)"

text \<open>\<^verbatim>\<open>generateMarkdown(record, schema, contentColumn)\<close>.\<close>

definition generateMarkdown ::
  "builtins \<Rightarrow> record_with_meta \<Rightarrow> schema \<Rightarrow> string option \<Rightarrow> string" where
  "generateMarkdown B r sch contentCol =
     join_newline
       ([''---'',
         ''id: '' @ toYamlValue B (VStr (rid r)),
         ''created: '' @ number_string B (real_of_int (rcreated r)),
         ''updated: '' @ number_string B (real_of_int (rupdated r))]
        @ map (\<lambda>key. key @ '': '' @ toYamlValue B (record_get r key))
            (filter (\<lambda>key. Some key \<noteq> contentCol) (map fst sch))
        @ [''---'', []]
        @ (case contentCol of
             None \<Rightarrow> []
           | Some cc \<Rightarrow>
               if cc = [] then []
               else (case record_get r cc of VStr body \<Rightarrow> [body] | _ \<Rightarrow> [])))"

text \<open>A record with the empty string, the default of a string column, in its only
  field, and one with a string of digits.\<close>

definition empty_name_record :: record_with_meta where
  "empty_name_record =
     \<lparr>rfields = [(''name'', VStr [])], rid = ''u1'', rcreated = 1000, rupdated = 1000,
      rstale = False\<rparr>"

definition digits_name_record :: record_with_meta where
  "digits_name_record =
     \<lparr>rfields = [(''name'', VStr ''42'')], rid = ''u2'', rcreated = 1000, rupdated = 1000,
      rstale = False\<rparr>"

section \<open>File watcher (src/persistence/watcher.ts)\<close>

text \<open>\<^verbatim>\<open>filenameToId\<close>: \<^verbatim>\<open>filename.replace(/\.md$/, '')\<close>.\<close>

definition filenameToId :: "string \<Rightarrow> string" where
  "filenameToId filename =
     (if endsWith filename ''.md'' then take (length filename - 3) filename else filename)"

datatype event_type = Create | Update | Delete

record file_change_event =
  ev_type :: event_type
  ev_id :: string
  ev_filename :: string
  ev_filepath :: string
  ev_record :: "(string \<times> jsval) list option"
  ev_stale :: bool

text \<open>The state of one watcher: the ids being saved, the known files, and the files
  that have a debounce timer running.\<close>

record watcher =
  savingIds :: "string set"
  knownFiles :: "string set"
  pendingChanges :: "string set"

record watcher_options =
  dirpath :: string
  watch_contentColumn :: "string option"
  isStaleCallback :: "(string \<Rightarrow> jsval \<Rightarrow> bool) option"

text \<open>
  \<^verbatim>\<open>processChange(filename)\<close>, as one step. The two answers of the file system are
  inputs: \<open>file_exists\<close> is the result of \<^verbatim>\<open>file.exists()\<close> and \<open>loaded\<close> the result of
  \<^verbatim>\<open>loadFromMarkdown\<close> (\<open>None\<close> for \<^verbatim>\<open>null\<close>). The result is the new state and the event
  given to the callbacks, if any.
\<close>

definition stale_of ::
  "watcher_options \<Rightarrow> string \<Rightarrow> (string \<times> jsval) list \<Rightarrow> bool" where
  "stale_of opts ident loaded_record =
     (case isStaleCallback opts of
        None \<Rightarrow> False
      | Some cb \<Rightarrow>
          (case watch_contentColumn opts of
             None \<Rightarrow> False
           | Some cc \<Rightarrow>
               if cc = [] then False
               else
                 (let c = get_property loaded_record cc
                  in if truthy c then cb ident c else False)))"

definition processChange ::
  "watcher_options \<Rightarrow> watcher \<Rightarrow> string \<Rightarrow> bool \<Rightarrow> (string \<times> (string \<times> jsval) list) option
     \<Rightarrow> watcher \<times> file_change_event option" where
  "processChange opts w filename file_exists loaded =
     (if \<not> endsWith filename ''.md'' then (w, None)
      else
        let ident = filenameToId filename;
            filepath = dirpath opts @ ''/'' @ filename
        in if ident \<in> savingIds w then (w, None)
           else if \<not> file_exists then
             (if filename \<notin> knownFiles w then (w, None)
              else (w\<lparr>knownFiles := knownFiles w - {filename}\<rparr>,
                    Some \<lparr>ev_type = Delete, ev_id = ident, ev_filename = filename,
                          ev_filepath = filepath, ev_record = None, ev_stale = False\<rparr>))
           else
             let isNew = (filename \<notin> knownFiles w);
                 w' = w\<lparr>knownFiles := insert filename (knownFiles w)\<rparr>
             in case loaded of
                  None \<Rightarrow> (w', None)
                | Some result \<Rightarrow>
                    (w', Some \<lparr>ev_type = (if isNew then Create else Update), ev_id = ident,
                               ev_filename = filename, ev_filepath = filepath,
                               ev_record = Some (snd result),
                               ev_stale = stale_of opts ident (snd result)\<rparr>))"

text \<open>
  The callback of \<^verbatim>\<open>fs.watch\<close> starts a timer only for a name ending in \<^verbatim>\<open>.md\<close>;
  \<^verbatim>\<open>handleChange\<close> replaces the timer of the file; the timer, when it fires, removes
  itself and calls \<^verbatim>\<open>processChange\<close>.
\<close>

definition handleChange :: "watcher \<Rightarrow> string \<Rightarrow> watcher" where
  "handleChange w filename = w\<lparr>pendingChanges := insert filename (pendingChanges w)\<rparr>"

definition watch_callback :: "watcher \<Rightarrow> string \<Rightarrow> watcher" where
  "watch_callback w filename =
     (if filename \<noteq> [] \<and> endsWith filename ''.md'' then handleChange w filename else w)"

definition debounce_fire ::
  "watcher_options \<Rightarrow> watcher \<Rightarrow> string \<Rightarrow> bool \<Rightarrow> (string \<times> (string \<times> jsval) list) option
     \<Rightarrow> watcher \<times> file_change_event option" where
  "debounce_fire opts w filename file_exists loaded =
     processChange opts (w\<lparr>pendingChanges := pendingChanges w - {filename}\<rparr>)
       filename file_exists loaded"

text \<open>A watcher that knows \<open>a.md\<close>, is saving \<open>b\<close>, and has timers for three files.\<close>

definition example_watcher :: watcher where
  "example_watcher =
     \<lparr>savingIds = {''b''}, knownFiles = {''a.md''},
      pendingChanges = {''a.md'', ''b.md'', ''c.md''}\<rparr>"

definition example_watcher_options :: watcher_options where
  "example_watcher_options =
     \<lparr>dirpath = ''/data/users'', watch_contentColumn = None, isStaleCallback = None\<rparr>"

text \<open>The examples below never convert a string to a number; any \<open>tn\<close> serves.\<close>

definition tn_nan :: "string \<Rightarrow> jsnum" where
  "tn_nan s = NaN"

text \<open>A small collection used to instantiate the theorems: one record \<open>u1\<close> in slot 0.\<close>

definition example_users :: collection where
  "example_users =
     snd (insert_record tn_nan
            (createCollection [(''name'', TString), (''score'', TNumber)] None)
            [(''id'', VStr ''u1''), (''name'', VStr ''Alice''), (''score'', VNum 7)] 1000 ''g0'')"

text \<open>A collection whose only column is named \<open>constructor\<close>, with the record \<open>a\<close> in
  slot 0.\<close>

definition example_ctor :: collection where
  "example_ctor =
     snd (insert_record tn_nan (createCollection [(''constructor'', TString)] None)
            [(''id'', VStr ''a''), (''constructor'', VStr ''x'')] 1000 ''g0'')"

text \<open>Three documents with a \<^verbatim>\<open>vector:3\<close> column, in slots 0, 1 and 2; the third holds
  the zero vector.\<close>

definition example_docs :: collection where
  "example_docs =
     snd (insert_record tn_nan
       (snd (insert_record tn_nan
          (snd (insert_record tn_nan
             (createCollection [(''embedding'', TVector 3)] None)
             [(''id'', VStr ''d1''), (''embedding'', VVec [Num 1, Num 0, Num 0])] 1000 ''g1''))
          [(''id'', VStr ''d2''), (''embedding'', VVec [Num (3 / 5), Num (4 / 5), Num 0])] 1001 ''g2''))
       [(''id'', VStr ''d3''), (''embedding'', VVec [Num 0, Num 0, Num 0])] 1002 ''g3'')"

text \<open>The three records as \<^verbatim>\<open>buildRecord\<close> materialises them, and three option sets.\<close>

definition doc1 :: record_with_meta where
  "doc1 = \<lparr>rfields = [(''embedding'', VVec [Num 1, Num 0, Num 0])], rid = ''d1'',
            rcreated = 1000, rupdated = 1000, rstale = False\<rparr>"

definition doc2 :: record_with_meta where
  "doc2 = \<lparr>rfields = [(''embedding'', VVec [Num (3 / 5), Num (4 / 5), Num 0])], rid = ''d2'',
            rcreated = 1001, rupdated = 1001, rstale = False\<rparr>"

definition doc3 :: record_with_meta where
  "doc3 = \<lparr>rfields = [(''embedding'', VVec [Num 0, Num 0, Num 0])], rid = ''d3'',
            rcreated = 1002, rupdated = 1002, rstale = False\<rparr>"

definition default_options :: search_options where
  "default_options = \<lparr>topK = None, minSimilarity = None, filter_fn = None\<rparr>"









section \<open>Registry: proofs\<close>

lemma reg_inv_create: "reg_inv createRegistry"
  by (simp add: reg_inv_def reg_consistent_def createRegistry_def)

lemma consistentI:
  assumes "\<And>ident i. idToIndex r ident = Some i \<longleftrightarrow> indexToId r i = Some ident"
    and "set (allocatedIndices r) = ran (idToIndex r)"
    and "set (allocatedIndices r) \<inter> set (freeIndices r) = {}"
  shows "reg_consistent r"
  using assms unfolding reg_consistent_def by blast

lemma store_inv:
  assumes inv: "reg_consistent r" and none: "idToIndex r ident = None"
    and fresh: "index \<notin> set (allocatedIndices r)"
    and nofree: "index \<notin> set fs" and sub: "set fs \<subseteq> set (freeIndices r)"
  shows "reg_consistent
           (r\<lparr>freeIndices := fs, nextIndex := n,
              idToIndex := (idToIndex r)(ident \<mapsto> index),
              indexToId := (indexToId r)(index \<mapsto> ident),
              allocatedIndices := set_add index (allocatedIndices r)\<rparr>)"
proof (rule consistentI)
  have bij: "\<And>k i. idToIndex r k = Some i \<longleftrightarrow> indexToId r i = Some k"
    and alloc: "set (allocatedIndices r) = ran (idToIndex r)"
    and disj: "set (allocatedIndices r) \<inter> set (freeIndices r) = {}"
    using inv unfolding reg_consistent_def by blast+
  have unused: "\<And>k. indexToId r index \<noteq> Some k"
    using fresh alloc bij by (metis ranI)
  have noback: "\<And>i. indexToId r i \<noteq> Some ident"
    using none bij by (metis option.distinct(1))
  show "\<And>k i. idToIndex (r\<lparr>freeIndices := fs, nextIndex := n,
              idToIndex := (idToIndex r)(ident \<mapsto> index),
              indexToId := (indexToId r)(index \<mapsto> ident),
              allocatedIndices := set_add index (allocatedIndices r)\<rparr>) k = Some i \<longleftrightarrow>
          indexToId (r\<lparr>freeIndices := fs, nextIndex := n,
              idToIndex := (idToIndex r)(ident \<mapsto> index),
              indexToId := (indexToId r)(index \<mapsto> ident),
              allocatedIndices := set_add index (allocatedIndices r)\<rparr>) i = Some k"
  proof -
    fix k i
    let ?r = "r\<lparr>freeIndices := fs, nextIndex := n,
              idToIndex := (idToIndex r)(ident \<mapsto> index),
              indexToId := (indexToId r)(index \<mapsto> ident),
              allocatedIndices := set_add index (allocatedIndices r)\<rparr>"
    show "idToIndex ?r k = Some i \<longleftrightarrow> indexToId ?r i = Some k"
    proof (cases "k = ident")
      case True
      then show ?thesis using noback [of i] by auto
    next
      case False
      have a: "idToIndex ?r k = idToIndex r k" using False by simp
      have c: "indexToId ?r i = Some k \<longleftrightarrow> indexToId r i = Some k"
        using unused [of k] False by (cases "i = index") simp_all
      show ?thesis unfolding a c by (rule bij)
    qed
  qed
  have "ran ((idToIndex r)(ident \<mapsto> index)) = insert index (ran (idToIndex r))"
    using none by simp
  then show "set (allocatedIndices (r\<lparr>freeIndices := fs, nextIndex := n,
              idToIndex := (idToIndex r)(ident \<mapsto> index),
              indexToId := (indexToId r)(index \<mapsto> ident),
              allocatedIndices := set_add index (allocatedIndices r)\<rparr>)) =
          ran (idToIndex (r\<lparr>freeIndices := fs, nextIndex := n,
              idToIndex := (idToIndex r)(ident \<mapsto> index),
              indexToId := (indexToId r)(index \<mapsto> ident),
              allocatedIndices := set_add index (allocatedIndices r)\<rparr>))"
    using alloc by (auto simp: set_add_def)
  show "set (allocatedIndices (r\<lparr>freeIndices := fs, nextIndex := n,
              idToIndex := (idToIndex r)(ident \<mapsto> index),
              indexToId := (indexToId r)(index \<mapsto> ident),
              allocatedIndices := set_add index (allocatedIndices r)\<rparr>)) \<inter>
        set (freeIndices (r\<lparr>freeIndices := fs, nextIndex := n,
              idToIndex := (idToIndex r)(ident \<mapsto> index),
              indexToId := (indexToId r)(index \<mapsto> ident),
              allocatedIndices := set_add index (allocatedIndices r)\<rparr>)) = {}"
    using disj nofree sub by (auto simp: set_add_def)
qed

lemma ran_remove:
  assumes m: "m k = Some i" and inj: "\<And>k'. m k' = Some i \<Longrightarrow> k' = k"
  shows "ran (m(k := None)) = ran m - {i}"
proof (rule set_eqI)
  fix x
  show "x \<in> ran (m(k := None)) \<longleftrightarrow> x \<in> ran m - {i}"
  proof
    assume "x \<in> ran (m(k := None))"
    then obtain a where a: "(m(k := None)) a = Some x"
      unfolding ran_def by blast
    then have ne: "a \<noteq> k" by (cases "a = k") simp_all
    with a have ma: "m a = Some x" by simp
    have "x \<noteq> i" using inj [of a] ma ne by blast
    with ma show "x \<in> ran m - {i}" by (simp add: ranI)
  next
    assume "x \<in> ran m - {i}"
    then obtain a where ma: "m a = Some x" and xi: "x \<noteq> i"
      unfolding ran_def by blast
    have "a \<noteq> k" using m ma xi by auto
    then have "(m(k := None)) a = Some x" using ma by simp
    then show "x \<in> ran (m(k := None))" by (rule ranI)
  qed
qed

lemma allocate_new:
  assumes "idToIndex r ident = None" and "freeIndices r = []"
  shows "allocate r ident =
     (nextIndex r,
      r\<lparr>freeIndices := [], nextIndex := nextIndex r + 1,
        idToIndex := (idToIndex r)(ident \<mapsto> nextIndex r),
        indexToId := (indexToId r)(nextIndex r \<mapsto> ident),
        allocatedIndices := set_add (nextIndex r) (allocatedIndices r)\<rparr>)"
  using assms by (simp add: allocate_def)

lemma allocate_pop:
  assumes "idToIndex r ident = None" and "freeIndices r = fs @ [x]"
  shows "allocate r ident =
     (x,
      r\<lparr>freeIndices := fs, nextIndex := nextIndex r,
        idToIndex := (idToIndex r)(ident \<mapsto> x),
        indexToId := (indexToId r)(x \<mapsto> ident),
        allocatedIndices := set_add x (allocatedIndices r)\<rparr>)"
  using assms by (simp add: allocate_def)

lemma allocate_inv: "reg_inv r \<Longrightarrow> reg_inv (snd (allocate r ident))"
proof (cases "idToIndex r ident")
  case (Some i)
  assume "reg_inv r"
  with Some show ?thesis by (simp add: allocate_def)
next
  case None
  assume inv: "reg_inv r"
  then have cons: "reg_consistent r" and da: "distinct (allocatedIndices r)"
    and df: "distinct (freeIndices r)"
    and cover: "\<And>i. i < nextIndex r \<longleftrightarrow> i \<in> set (allocatedIndices r) \<or> i \<in> set (freeIndices r)"
    unfolding reg_inv_def by blast+
  have disj: "set (allocatedIndices r) \<inter> set (freeIndices r) = {}"
    using cons unfolding reg_consistent_def by blast
  show ?thesis
  proof (cases "freeIndices r = []")
    case True
    have fresh: "nextIndex r \<notin> set (allocatedIndices r)"
      using cover [of "nextIndex r"] by simp
    have eq: "snd (allocate r ident) =
        r\<lparr>freeIndices := [], nextIndex := nextIndex r + 1,
              idToIndex := (idToIndex r)(ident \<mapsto> nextIndex r),
              indexToId := (indexToId r)(nextIndex r \<mapsto> ident),
              allocatedIndices := set_add (nextIndex r) (allocatedIndices r)\<rparr>"
      by (simp add: allocate_new [OF None True])
    have "reg_consistent (snd (allocate r ident))"
      unfolding eq by (rule store_inv [OF cons None fresh]) simp_all
    moreover have "distinct (allocatedIndices (snd (allocate r ident)))"
      unfolding eq using da fresh by (simp add: set_add_def)
    moreover have "distinct (freeIndices (snd (allocate r ident)))"
      unfolding eq by simp
    moreover have "i < nextIndex (snd (allocate r ident)) \<longleftrightarrow>
        i \<in> set (allocatedIndices (snd (allocate r ident))) \<or>
        i \<in> set (freeIndices (snd (allocate r ident)))" for i
      unfolding eq using cover [of i] True fresh by (auto simp: set_add_def less_Suc_eq)
    ultimately show ?thesis
      by (simp add: reg_inv_def)
  next
    case False
    then obtain fs0 x where fr: "freeIndices r = fs0 @ [x]"
      by (meson rev_exhaust)
    have fresh: "x \<notin> set (allocatedIndices r)"
      using disj fr by auto
    have nofree: "x \<notin> set fs0"
      using df fr by simp
    have sub: "set fs0 \<subseteq> set (freeIndices r)"
      using fr by auto
    have eq: "snd (allocate r ident) =
        r\<lparr>freeIndices := fs0, nextIndex := nextIndex r,
              idToIndex := (idToIndex r)(ident \<mapsto> x),
              indexToId := (indexToId r)(x \<mapsto> ident),
              allocatedIndices := set_add x (allocatedIndices r)\<rparr>"
      by (simp add: allocate_pop [OF None fr])
    have "reg_consistent (snd (allocate r ident))"
      unfolding eq by (rule store_inv [OF cons None fresh nofree sub])
    moreover have "distinct (allocatedIndices (snd (allocate r ident)))"
      unfolding eq using da fresh by (simp add: set_add_def)
    moreover have "distinct (freeIndices (snd (allocate r ident)))"
      unfolding eq using df fr by simp
    moreover have "i < nextIndex (snd (allocate r ident)) \<longleftrightarrow>
        i \<in> set (allocatedIndices (snd (allocate r ident))) \<or>
        i \<in> set (freeIndices (snd (allocate r ident)))" for i
      unfolding eq using cover [of i] fr by (auto simp: set_add_def)
    ultimately show ?thesis
      by (simp add: reg_inv_def)
  qed
qed

lemma release_inv: "reg_inv r \<Longrightarrow> reg_inv (snd (release r ident))"
proof (cases "idToIndex r ident")
  case None
  assume "reg_inv r"
  with None show ?thesis by (simp add: release_def)
next
  case (Some i)
  assume inv: "reg_inv r"
  then have cons: "reg_consistent r" and da: "distinct (allocatedIndices r)"
    and df: "distinct (freeIndices r)"
    and cover: "\<And>i. i < nextIndex r \<longleftrightarrow> i \<in> set (allocatedIndices r) \<or> i \<in> set (freeIndices r)"
    unfolding reg_inv_def by blast+
  have bij: "\<And>k j. idToIndex r k = Some j \<longleftrightarrow> indexToId r j = Some k"
    and alloc: "set (allocatedIndices r) = ran (idToIndex r)"
    and disj: "set (allocatedIndices r) \<inter> set (freeIndices r) = {}"
    using cons unfolding reg_consistent_def by blast+
  have mem: "i \<in> set (allocatedIndices r)"
    using Some alloc by (simp add: ranI)
  have notfree: "i \<notin> set (freeIndices r)"
    using mem disj by blast
  have inj: "\<And>k. idToIndex r k = Some i \<Longrightarrow> k = ident"
    using Some bij by (metis option.inject)
  let ?r = "r\<lparr>idToIndex := (idToIndex r)(ident := None),
             indexToId := (indexToId r)(i := None),
             allocatedIndices := set_delete i (allocatedIndices r),
             freeIndices := freeIndices r @ [i]\<rparr>"
  have eq: "snd (release r ident) = ?r"
    using Some by (simp add: release_def)
  have "reg_consistent ?r"
  proof (rule consistentI)
    show "\<And>k j. idToIndex ?r k = Some j \<longleftrightarrow> indexToId ?r j = Some k"
    proof -
      fix k j
      show "idToIndex ?r k = Some j \<longleftrightarrow> indexToId ?r j = Some k"
      proof (cases "k = ident")
        case True
        have "indexToId r j = Some ident \<Longrightarrow> j = i" for j
          using bij [of ident j] Some by simp
        then show ?thesis using True by auto
      next
        case False
        have a: "idToIndex ?r k = idToIndex r k" using False by simp
        have b: "indexToId r i \<noteq> Some k"
          using bij [of k i] inj [of k] False by blast
        have c: "indexToId ?r j = Some k \<longleftrightarrow> indexToId r j = Some k"
          using b by (cases "j = i") simp_all
        show ?thesis unfolding a c by (rule bij)
      qed
    qed
    have "ran ((idToIndex r)(ident := None)) = ran (idToIndex r) - {i}"
      using Some inj by (rule ran_remove [where m = "idToIndex r" and k = ident and i = i])
    then show "set (allocatedIndices ?r) = ran (idToIndex ?r)"
      using alloc by (simp add: set_delete_def)
    show "set (allocatedIndices ?r) \<inter> set (freeIndices ?r) = {}"
      using disj by (auto simp: set_delete_def)
  qed
  moreover have "distinct (allocatedIndices ?r)"
    using da by (simp add: set_delete_def distinct_removeAll)
  moreover have "distinct (freeIndices ?r)"
    using df notfree by simp
  moreover have "i < nextIndex ?r \<longleftrightarrow>
      i \<in> set (allocatedIndices ?r) \<or> i \<in> set (freeIndices ?r)" for i
    using cover mem by (auto simp: set_delete_def)
  ultimately show ?thesis
    unfolding eq reg_inv_def by blast
qed

lemma run_ops_inv: "reg_inv (run_ops ops)"
proof -
  have "reg_inv r \<Longrightarrow> reg_inv (foldl reg_step r ops)" for r
  proof (induction ops arbitrary: r)
    case Nil
    then show ?case by simp
  next
    case (Cons a ops)
    have "reg_inv (reg_step r a)"
      using Cons.prems by (cases a) (simp_all add: allocate_inv release_inv)
    then show ?case using Cons.IH by simp
  qed
  then show ?thesis
    unfolding run_ops_def using reg_inv_create by blast
qed

text \<open>
  C1. After every sequence of \<^verbatim>\<open>allocate\<close> and \<^verbatim>\<open>release\<close> calls on a new registry
  (repeated calls for the same id included), an id has index \<open>i\<close> in \<open>idToIndex\<close> exactly
  when \<open>indexToId\<close> maps \<open>i\<close> back to that id, the allocated indices are the image of
  \<open>idToIndex\<close>, and no allocated index is in the free list.
\<close>

theorem registry_bijection:
  "(\<forall>ident i. idToIndex (run_ops ops) ident = Some i \<longleftrightarrow>
        indexToId (run_ops ops) i = Some ident) \<and>
   set (allocatedIndices (run_ops ops)) = ran (idToIndex (run_ops ops)) \<and>
   set (allocatedIndices (run_ops ops)) \<inter> set (freeIndices (run_ops ops)) = {}"
  using run_ops_inv [of ops] unfolding reg_inv_def reg_consistent_def by blast

theorem registry_bijection_witness:
  "idToIndex (run_ops [Allocate ''a'', Allocate ''b'', Release ''a'', Allocate ''a'']) ''a'' = Some 0 \<and>
   indexToId (run_ops [Allocate ''a'', Allocate ''b'', Release ''a'', Allocate ''a'']) 0 = Some ''a'' \<and>
   set (allocatedIndices (run_ops [Allocate ''a'', Allocate ''b'', Release ''a'', Allocate ''a''])) \<inter>
     set (freeIndices (run_ops [Allocate ''a'', Allocate ''b'', Release ''a'', Allocate ''a''])) = {}"
proof -
  have a: "idToIndex (run_ops [Allocate ''a'', Allocate ''b'', Release ''a'', Allocate ''a'']) ''a'' = Some 0"
    by (simp add: run_ops_def createRegistry_def allocate_def release_def set_add_def set_delete_def)
  show ?thesis
    using a registry_bijection [of "[Allocate ''a'', Allocate ''b'', Release ''a'', Allocate ''a'']"]
    by blast
qed

text \<open>
  C7. When the id that holds slot \<open>s\<close> is released and the next call allocates an id that
  has no slot, that call returns \<open>s\<close> and leaves the counter of unused indices where it
  was: the slot freed last is reused first.
\<close>

theorem lifo_slot_reuse:
  assumes "idToIndex r ident = Some s"
    and "idToIndex (snd (release r ident)) fresh = None"
  shows "fst (allocate (snd (release r ident)) fresh) = s \<and>
         nextIndex (snd (allocate (snd (release r ident)) fresh)) = nextIndex r"
  using assms by (simp add: allocate_def release_def split: if_splits)

theorem lifo_slot_reuse_witness:
  "idToIndex (run_ops [Allocate ''a'', Allocate ''b'']) ''a'' = Some 0 \<and>
   idToIndex (snd (release (run_ops [Allocate ''a'', Allocate ''b'']) ''a'')) ''c'' = None \<and>
   fst (allocate (snd (release (run_ops [Allocate ''a'', Allocate ''b'']) ''a'')) ''c'') = 0 \<and>
   nextIndex (snd (allocate (snd (release (run_ops [Allocate ''a'', Allocate ''b'']) ''a'')) ''c'')) = 2"
proof -
  have a: "idToIndex (run_ops [Allocate ''a'', Allocate ''b'']) ''a'' = Some 0"
    by (simp add: run_ops_def createRegistry_def allocate_def set_add_def)
  have b: "idToIndex (snd (release (run_ops [Allocate ''a'', Allocate ''b'']) ''a'')) ''c'' = None"
    by (simp add: run_ops_def createRegistry_def allocate_def release_def set_add_def)
  have n: "nextIndex (run_ops [Allocate ''a'', Allocate ''b'']) = 2"
    by (simp add: run_ops_def createRegistry_def allocate_def set_add_def)
  show ?thesis
    using a b n lifo_slot_reuse [OF a b] by simp
qed

section \<open>Columns and collection: proofs\<close>

lemma col_set_InrD:
  assumes "col_set tn c col i v = Inr c'"
  shows "col_definition c' = col_definition c"
    and "\<And>col'. col' \<noteq> col \<Longrightarrow> column_map c' col' = column_map c col'"
    and "col_get c' col i = Inr (stored_value tn (col_definition c) col v)"
    and "column_map c col \<noteq> None"
    and "column_map c' col \<noteq> None"
proof -
  from assms obtain arr where arr: "column_map c col = Some arr"
    by (auto simp: col_set_def split: option.splits)
  show "column_map c col \<noteq> None" using arr by simp
  show "col_definition c' = col_definition c"
    using assms arr by (auto simp: col_set_def split: option.splits if_splits)
  show "\<And>col'. col' \<noteq> col \<Longrightarrow> column_map c' col' = column_map c col'"
    using assms arr by (auto simp: col_set_def split: option.splits if_splits)
  show "column_map c' col \<noteq> None"
    using assms arr by (auto simp: col_set_def split: option.splits if_splits)
  show "col_get c' col i = Inr (stored_value tn (col_definition c) col v)"
  proof (cases "length arr \<le> i")
    case True
    then obtain t where t: "map_of (col_definition c) col = Some t"
      using assms arr by (auto simp: col_set_def split: option.splits)
    have "i < length (arr @ replicate (Suc i - length arr) (getDefaultValue t))"
      by simp
    then show ?thesis
      using assms arr True t by (auto simp: col_set_def col_get_def)
  next
    case False
    then show ?thesis
      using assms arr by (auto simp: col_set_def col_get_def)
  qed
qed

lemma col_set_wf:
  assumes "columns_wf c" and "col_set tn c col i v = Inr c'"
  shows "columns_wf c'"
proof -
  note d = col_set_InrD [OF assms(2)]
  have "column_map c' k \<noteq> None \<longleftrightarrow> column_map c k \<noteq> None" for k
    using d(2) [of k] d(4) d(5) by (cases "k = col") simp_all
  then show ?thesis
    using assms(1) d(1) unfolding columns_wf_def by simp
qed

lemma col_set_succeeds:
  assumes "columns_wf c" and "col \<in> set (map fst (col_definition c))"
  shows "\<exists>c'. col_set tn c col i v = Inr c'"
proof -
  from assms obtain arr where arr: "column_map c col = Some arr"
    unfolding columns_wf_def by auto
  from assms(2) obtain t where t: "map_of (col_definition c) col = Some t"
    by (metis map_of_eq_None_iff not_Some_eq set_map)
  show ?thesis
    using arr t by (simp add: col_set_def)
qed

lemma col_set_list_def_eq:
  "col_set_list tn c i kvs = Inr c' \<Longrightarrow> col_definition c' = col_definition c"
proof (induction kvs arbitrary: c)
  case Nil
  then show ?case by simp
next
  case (Cons kv kvs)
  obtain k v where kv: "kv = (k, v)" by (cases kv)
  from Cons.prems obtain c1 where c1: "col_set tn c k i v = Inr c1"
    and rest: "col_set_list tn c1 i kvs = Inr c'"
    unfolding kv by (auto split: sum.splits)
  show ?case
    using Cons.IH [OF rest] col_set_InrD(1) [OF c1] by simp
qed

lemma col_set_list_other:
  "col_set_list tn c i kvs = Inr c' \<Longrightarrow> col \<notin> fst ` set kvs \<Longrightarrow>
     column_map c' col = column_map c col"
proof (induction kvs arbitrary: c)
  case Nil
  then show ?case by simp
next
  case (Cons kv kvs)
  obtain k v where kv: "kv = (k, v)" by (cases kv)
  from Cons.prems(1) obtain c1 where c1: "col_set tn c k i v = Inr c1"
    and rest: "col_set_list tn c1 i kvs = Inr c'"
    unfolding kv by (auto split: sum.splits)
  have ne: "col \<noteq> k" and notin: "col \<notin> fst ` set kvs"
    using Cons.prems(2) unfolding kv by auto
  show ?case
    using Cons.IH [OF rest notin] col_set_InrD(2) [OF c1 ne] by simp
qed

lemma col_set_list_written:
  "col_set_list tn c i kvs = Inr c' \<Longrightarrow> col \<in> fst ` set kvs \<Longrightarrow>
     (\<And>v'. (col, v') \<in> set kvs \<Longrightarrow> v' = v) \<Longrightarrow>
     col_get c' col i = Inr (stored_value tn (col_definition c) col v)"
proof (induction kvs arbitrary: c)
  case Nil
  then show ?case by simp
next
  case (Cons kv kvs)
  obtain k v0 where kv: "kv = (k, v0)" by (cases kv)
  from Cons.prems(1) obtain c1 where c1: "col_set tn c k i v0 = Inr c1"
    and rest: "col_set_list tn c1 i kvs = Inr c'"
    unfolding kv by (auto split: sum.splits)
  have def1: "col_definition c1 = col_definition c"
    by (rule col_set_InrD(1) [OF c1])
  show ?case
  proof (cases "col \<in> fst ` set kvs")
    case True
    have "col_get c' col i = Inr (stored_value tn (col_definition c1) col v)"
      by (rule Cons.IH [OF rest True]) (simp add: Cons.prems(3))
    then show ?thesis by (simp add: def1)
  next
    case False
    then have "col = k" using Cons.prems(2) unfolding kv by auto
    moreover have "v0 = v" using Cons.prems(3) [of v0] \<open>col = k\<close> unfolding kv by simp
    moreover have "column_map c' col = column_map c1 col"
      by (rule col_set_list_other [OF rest False])
    then have "col_get c' col i = col_get c1 col i"
      by (simp add: col_get_def)
    ultimately show ?thesis
      using col_set_InrD(3) [OF c1] by simp
  qed
qed

lemma col_set_list_wf:
  "columns_wf c \<Longrightarrow> col_set_list tn c i kvs = Inr c' \<Longrightarrow> columns_wf c'"
proof (induction kvs arbitrary: c)
  case Nil
  then show ?case by simp
next
  case (Cons kv kvs)
  obtain k v where kv: "kv = (k, v)" by (cases kv)
  from Cons.prems(2) obtain c1 where c1: "col_set tn c k i v = Inr c1"
    and rest: "col_set_list tn c1 i kvs = Inr c'"
    unfolding kv by (auto split: sum.splits)
  show ?case
    by (rule Cons.IH [OF col_set_wf [OF Cons.prems(1) c1] rest])
qed

lemma col_set_list_succeeds:
  "columns_wf c \<Longrightarrow> fst ` set kvs \<subseteq> set (map fst (col_definition c)) \<Longrightarrow>
     \<exists>c'. col_set_list tn c i kvs = Inr c'"
proof (induction kvs arbitrary: c)
  case Nil
  then show ?case by simp
next
  case (Cons kv kvs)
  obtain k v where kv: "kv = (k, v)" by (cases kv)
  have "k \<in> set (map fst (col_definition c))"
    using Cons.prems(2) unfolding kv by simp
  then obtain c1 where c1: "col_set tn c k i v = Inr c1"
    using col_set_succeeds [OF Cons.prems(1)] by blast
  have wf1: "columns_wf c1" by (rule col_set_wf [OF Cons.prems(1) c1])
  have "fst ` set kvs \<subseteq> set (map fst (col_definition c1))"
    using Cons.prems(2) col_set_InrD(1) [OF c1] by simp
  from Cons.IH [OF wf1 this] obtain c' where "col_set_list tn c1 i kvs = Inr c'"
    by blast
  then show ?case
    unfolding kv using c1 by simp
qed

lemma update_loop_eq:
  "update_loop tn c i data keys =
     col_set_list tn c i
       (map (\<lambda>k. (k, case map_of data k of Some v \<Rightarrow> v | None \<Rightarrow> VUndefined)) keys)"
  by (induction keys arbitrary: c) (auto split: sum.splits)

lemma setRecord_loop_eq:
  "setRecord_loop tn c i record sch =
     col_set_list tn c i
       (map (\<lambda>(col, t). (col, if has_property record col then get_property record col
                               else getDefaultValue t)) sch)"
  by (induction sch arbitrary: c) (auto split: sum.splits)

lemma clearAt_loop_eq:
  "clearAt_loop tn c i sch =
     col_set_list tn c i (map (\<lambda>(col, t). (col, getDefaultValue t)) sch)"
  by (induction sch arbitrary: c) (auto split: sum.splits)

lemma getIndex_None: "idToIndex r ident = None \<Longrightarrow> getIndex r ident = - 1"
  by (simp add: getIndex_def)

lemma getIndex_Some: "idToIndex r ident = Some i \<Longrightarrow> getIndex r ident = int i"
  by (simp add: getIndex_def)

lemma keys_map_pair:
  "fst ` set (map (\<lambda>(col, t). (col, f col t)) sch) = set (map fst sch)"
  by (induction sch) auto

lemma clearAt_succeeds:
  assumes "columns_wf c"
  shows "\<exists>c'. clearAt tn c i = Inr c' \<and> columns_wf c'"
proof -
  let ?kvs = "map (\<lambda>(col, t). (col, getDefaultValue t)) (col_definition c)"
  have "fst ` set ?kvs \<subseteq> set (map fst (col_definition c))"
    by (simp only: keys_map_pair)
  from col_set_list_succeeds [OF assms this]
  obtain c' where c': "col_set_list tn c i ?kvs = Inr c'" by blast
  then have "clearAt tn c i = Inr c'"
    by (simp add: clearAt_def clearAt_loop_eq)
  moreover have "columns_wf c'"
    by (rule col_set_list_wf [OF assms c'])
  ultimately show ?thesis by blast
qed

lemma delete_unknown:
  "idToIndex (registry c) ident = None \<Longrightarrow> delete tn c ident = (Inr False, c)"
  by (simp add: delete_def getIndex_None)

lemma delete_known:
  assumes wf: "collection_wf c" and known: "idToIndex (registry c) ident = Some i"
  shows "fst (delete tn c ident) = Inr True"
    and "idToIndex (registry (snd (delete tn c ident))) ident = None"
proof -
  from clearAt_succeeds [of "columns c" tn i] wf
  obtain cols where cols: "clearAt tn (columns c) i = Inr cols"
    unfolding collection_wf_def by blast
  have ne: "getIndex (registry c) ident \<noteq> - 1"
    using known by (simp add: getIndex_def)
  have idx: "nat (getIndex (registry c) ident) = i"
    using known by (simp add: getIndex_def)
  show "fst (delete tn c ident) = Inr True"
    using ne idx cols by (simp add: delete_def)
  show "idToIndex (registry (snd (delete tn c ident))) ident = None"
    using ne idx cols known by (simp add: delete_def release_def)
qed

lemma get_unknown: "idToIndex (registry c) ident = None \<Longrightarrow> get c ident = Inr None"
  by (simp add: get_def getIndex_None)

text \<open>
  C5. \<^verbatim>\<open>delete\<close> of an id without a slot returns false and leaves the whole collection
  state as it was. In a collection whose schema columns all have their arrays,
  \<^verbatim>\<open>delete\<close> of a registered id does not throw, returns true, and \<^verbatim>\<open>get\<close> of that id
  on the state it leaves returns \<^verbatim>\<open>undefined\<close>.
\<close>

theorem delete_total:
  "(idToIndex (registry c) ident = None \<longrightarrow> delete tn c ident = (Inr False, c)) \<and>
   (collection_wf c \<longrightarrow> idToIndex (registry c) ident \<noteq> None \<longrightarrow>
      fst (delete tn c ident) = Inr True \<and> get (snd (delete tn c ident)) ident = Inr None)"
proof (intro conjI impI)
  assume "idToIndex (registry c) ident = None"
  then show "delete tn c ident = (Inr False, c)" by (rule delete_unknown)
next
  assume wf: "collection_wf c" and "idToIndex (registry c) ident \<noteq> None"
  then obtain i where i: "idToIndex (registry c) ident = Some i" by blast
  show "fst (delete tn c ident) = Inr True"
    by (rule delete_known(1) [OF wf i])
  show "get (snd (delete tn c ident)) ident = Inr None"
    by (rule get_unknown [OF delete_known(2) [OF wf i]])
qed

lemma stored_value_default:
  "map_of sch col = Some t \<Longrightarrow> stored_value tn sch col (getDefaultValue t) = getDefaultValue t"
  by (cases t) (simp_all add: stored_value_def)


lemma js_read_push_update: "js_read ((push_until arr i d)[i := Some v]) i = Some v"
  by (simp add: js_read_def push_until_def)


lemma update_succeeds:
  assumes wf: "collection_wf c" and known: "idToIndex (registry c) ident = Some i"
    and keys: "fst ` set data \<subseteq> set (map fst (col_definition (columns c)))"
  shows "\<exists>c'. update tn c ident data now = (Inr True, c')"
proof -
  have ne: "getIndex (registry c) ident \<noteq> - 1"
    using known by (simp add: getIndex_def)
  let ?kvs = "map (\<lambda>k. (k, case map_of data k of Some v \<Rightarrow> v | None \<Rightarrow> VUndefined)) (map fst data)"
  have "fst ` set ?kvs \<subseteq> set (map fst (col_definition (columns c)))"
    using keys by (simp add: image_image comp_def)
  from col_set_list_succeeds [OF _ this, of tn "nat (getIndex (registry c) ident)"] wf
  obtain cols where "col_set_list tn (columns c) (nat (getIndex (registry c) ident)) ?kvs = Inr cols"
    unfolding collection_wf_def by blast
  then show ?thesis
    using ne by (simp add: update_def update_loop_eq Let_def)
qed

text \<open>
  What \<^verbatim>\<open>insert\<close> does when its id (given, or generated) already has slot \<open>i\<close>: it
  returns that id and leaves the registry as it was (no slot is allocated); every
  schema column at slot \<open>i\<close> holds the value the input has for it, own or inherited,
  or the default of its type when \<^verbatim>\<open>col in data\<close> is false; \<^verbatim>\<open>created[i]\<close> and
  \<^verbatim>\<open>updated[i]\<close> are the call time and \<^verbatim>\<open>stale[i]\<close> is false.
\<close>

lemma insert_existing_writes:
  assumes wf: "collection_wf c"
    and known: "idToIndex (registry c) ident = Some i"
    and given: "insert_id data gen = ident"
  shows "\<exists>c'. insert_record tn c data now gen = (Inr ident, c') \<and>
           registry c' = registry c \<and>
           (\<forall>col t. (col, t) \<in> set (col_definition (columns c)) \<longrightarrow>
              col_get (columns c') col i =
                Inr (if has_property data col
                     then stored_value tn (col_definition (columns c)) col (get_property data col)
                     else getDefaultValue t)) \<and>
           js_read (created c') i = Some now \<and>
           js_read (updated c') i = Some now \<and>
           js_read (stale c') i = Some False"
proof -
  let ?sch = "col_definition (columns c)"
  let ?val = "\<lambda>col t. if has_property data col then get_property data col else getDefaultValue t"
  let ?kvs = "map (\<lambda>(col, t). (col, ?val col t)) ?sch"
  have cwf: "columns_wf (columns c)" and dist: "distinct (map fst ?sch)"
    using wf unfolding collection_wf_def columns_wf_def by blast+
  have alloc: "allocate (registry c) ident = (i, registry c)"
    using known by (simp add: allocate_def)
  have "fst ` set ?kvs \<subseteq> set (map fst ?sch)"
    by (simp only: keys_map_pair)
  from col_set_list_succeeds [OF cwf this]
  obtain cols where cols: "col_set_list tn (columns c) i ?kvs = Inr cols" by blast
  let ?c' = "setMetadataAt (c\<lparr>columns := cols\<rparr>) i now now False"
  have res: "insert_record tn c data now gen = (Inr ident, ?c')"
    using given alloc cols by (simp add: insert_record_def setRecord_def setRecord_loop_eq)
  have flds: "col_get (columns ?c') col i =
      Inr (if has_property data col then stored_value tn ?sch col (get_property data col)
           else getDefaultValue t)"
    if mem: "(col, t) \<in> set ?sch" for col t
  proof -
    have m: "map_of ?sch col = Some t"
      using dist mem by simp
    have "col \<in> set (map fst ?sch)"
      using mem by force
    then have in_kvs: "col \<in> fst ` set ?kvs"
      by (simp only: keys_map_pair)
    have uniq: "v' = ?val col t" if "(col, v') \<in> set ?kvs" for v'
    proof -
      from that obtain t' where "(col, t') \<in> set ?sch" and v': "v' = ?val col t'"
        by auto
      then have tt: "t' = t" using dist mem by (meson eq_key_imp_eq_value)
      show ?thesis unfolding v' tt by (rule refl)
    qed
    have "col_get cols col i = Inr (stored_value tn ?sch col (?val col t))"
      by (rule col_set_list_written [OF cols in_kvs uniq])
    moreover have "stored_value tn ?sch col (?val col t) =
        (if has_property data col then stored_value tn ?sch col (get_property data col)
         else getDefaultValue t)"
      using stored_value_default [OF m] by simp
    ultimately show ?thesis by (simp add: setMetadataAt_def)
  qed
  have meta: "registry ?c' = registry c" "js_read (created ?c') i = Some now"
    "js_read (updated ?c') i = Some now" "js_read (stale ?c') i = Some False"
    by (simp_all add: setMetadataAt_def js_read_push_update)
  show ?thesis
    using res flds meta by blast
qed

text \<open>Every collection that \<^verbatim>\<open>createCollection\<close> builds and the operations change has an
  array for each schema column.\<close>

lemma col_set_list_wf_err:
  "columns_wf c \<Longrightarrow> col_set_list tn c i kvs = Inl (e, c') \<Longrightarrow> columns_wf c'"
proof (induction kvs arbitrary: c)
  case Nil
  then show ?case by simp
next
  case (Cons kv kvs)
  obtain k v where kv: "kv = (k, v)" by (cases kv)
  show ?case
  proof (cases "col_set tn c k i v")
    case (Inl err)
    then have "c' = c" using Cons.prems(2) unfolding kv by simp
    then show ?thesis using Cons.prems(1) by simp
  next
    case (Inr c1)
    then have rest: "col_set_list tn c1 i kvs = Inl (e, c')"
      using Cons.prems(2) unfolding kv by simp
    show ?thesis
      by (rule Cons.IH [OF col_set_wf [OF Cons.prems(1) Inr] rest])
  qed
qed

lemma createCollection_wf:
  "distinct (map fst sch) \<Longrightarrow> collection_wf (createCollection sch cc)"
  by (simp add: collection_wf_def columns_wf_def createCollection_def createColumns_def)

lemma insert_record_wf:
  assumes "collection_wf c"
  shows "collection_wf (snd (insert_record tn c data now gen))"
proof -
  obtain index reg where a: "allocate (registry c) (insert_id data gen) = (index, reg)"
    by (cases "allocate (registry c) (insert_id data gen)")
  have wf: "columns_wf (columns c)" using assms by (simp add: collection_wf_def)
  show ?thesis
  proof (cases "setRecord tn (columns c) index data")
    case (Inl p)
    obtain e cols where p: "p = (e, cols)" by (cases p)
    have "columns_wf cols"
      using Inl wf unfolding p setRecord_def setRecord_loop_eq by (rule col_set_list_wf_err [rotated])
    moreover have "snd (insert_record tn c data now gen) = c\<lparr>registry := reg, columns := cols\<rparr>"
      using a Inl p by (simp add: insert_record_def)
    ultimately show ?thesis by (simp add: collection_wf_def)
  next
    case (Inr cols)
    have "columns_wf cols"
      using Inr wf unfolding setRecord_def setRecord_loop_eq by (rule col_set_list_wf [rotated])
    moreover have "columns (snd (insert_record tn c data now gen)) = cols"
      using a Inr by (simp add: insert_record_def setMetadataAt_def)
    ultimately show ?thesis by (simp add: collection_wf_def)
  qed
qed

lemma update_wf:
  assumes "collection_wf c"
  shows "collection_wf (snd (update tn c ident data now))"
proof (cases "getIndex (registry c) ident = - 1")
  case True
  then show ?thesis using assms by (simp add: update_def)
next
  case False
  have wf: "columns_wf (columns c)" using assms by (simp add: collection_wf_def)
  show ?thesis
  proof (cases "update_loop tn (columns c) (nat (getIndex (registry c) ident)) data (map fst data)")
    case (Inl p)
    obtain e cols where p: "p = (e, cols)" by (cases p)
    have "columns_wf cols"
      using Inl wf unfolding p update_loop_eq by (rule col_set_list_wf_err [rotated])
    moreover have "columns (snd (update tn c ident data now)) = cols"
      using False Inl p by (simp add: update_def Let_def)
    ultimately show ?thesis by (simp add: collection_wf_def)
  next
    case (Inr cols)
    have "columns_wf cols"
      using Inr wf unfolding update_loop_eq by (rule col_set_list_wf [rotated])
    moreover have "columns (snd (update tn c ident data now)) = cols"
      using False Inr by (simp add: update_def Let_def)
    ultimately show ?thesis by (simp add: collection_wf_def)
  qed
qed

lemma delete_wf:
  assumes "collection_wf c"
  shows "collection_wf (snd (delete tn c ident))"
proof (cases "getIndex (registry c) ident = - 1")
  case True
  then show ?thesis using assms by (simp add: delete_def)
next
  case False
  have wf: "columns_wf (columns c)" using assms by (simp add: collection_wf_def)
  show ?thesis
  proof (cases "clearAt tn (columns c) (nat (getIndex (registry c) ident))")
    case (Inl p)
    obtain e cols where p: "p = (e, cols)" by (cases p)
    have "columns_wf cols"
      using Inl wf unfolding p clearAt_def clearAt_loop_eq by (rule col_set_list_wf_err [rotated])
    moreover have "columns (snd (delete tn c ident)) = cols"
      using False Inl p by (simp add: delete_def Let_def)
    ultimately show ?thesis by (simp add: collection_wf_def)
  next
    case (Inr cols)
    have "columns_wf cols"
      using Inr wf unfolding clearAt_def clearAt_loop_eq by (rule col_set_list_wf [rotated])
    moreover have "columns (snd (delete tn c ident)) = cols"
      using False Inr by (simp add: delete_def Let_def)
    ultimately show ?thesis by (simp add: collection_wf_def)
  qed
qed

section \<open>The example collection\<close>

lemmas eval_defs = example_users_def insert_record_def insert_id_def createCollection_def
  createColumns_def createRegistry_def allocate_def release_def set_add_def set_delete_def
  setRecord_def col_set_def col_get_def stored_value_def setMetadataAt_def push_until_def
  js_read_def js_write_def getIndex_def getId_def update_def delete_def clearAt_def
  clear_meta_def get_def buildRecord_def getRecord_def has_property_def get_property_def Let_def

lemma example_u1: "idToIndex (registry example_users) ''u1'' = Some 0"
  by (simp add: eval_defs)

lemma example_zz: "idToIndex (registry example_users) ''zz'' = None"
  by (simp add: eval_defs)

lemma example_wf: "collection_wf example_users"
  by (simp add: eval_defs collection_wf_def columns_wf_def)

lemma example_schema:
  "col_definition (columns example_users) = [(''name'', TString), (''score'', TNumber)]"
  by (simp add: eval_defs)




theorem delete_total_witness:
  "delete tn_nan example_users ''zz'' = (Inr False, example_users) \<and>
   fst (delete tn_nan example_users ''u1'') = Inr True \<and>
   get (snd (delete tn_nan example_users ''u1'')) ''u1'' = Inr None"
  using delete_total [of example_users "''zz''" tn_nan]
    delete_total [of example_users "''u1''" tn_nan]
    example_u1 example_zz example_wf
  by simp


lemma example_reinsert:
  "\<exists>c'. insert_record tn_nan example_users [(''id'', VStr ''u1''), (''score'', VNum 9)] 3000 ''g1''
           = (Inr ''u1'', c') \<and>
         registry c' = registry example_users \<and>
         col_get (columns c') ''name'' 0 = Inr (VStr []) \<and>
         col_get (columns c') ''score'' 0 = Inr (VNum 9) \<and>
         js_read (created c') 0 = Some 3000 \<and>
         js_read (updated c') 0 = Some 3000 \<and>
         js_read (stale c') 0 = Some False"
proof -
  have given: "insert_id [(''id'', VStr ''u1''), (''score'', VNum 9)] ''g1'' = ''u1''"
    by (simp add: insert_id_def)
  from insert_existing_writes [OF example_wf example_u1 given, of tn_nan 3000]
  obtain c' where
    res: "insert_record tn_nan example_users [(''id'', VStr ''u1''), (''score'', VNum 9)] 3000 ''g1''
            = (Inr ''u1'', c')"
    and reg: "registry c' = registry example_users"
    and flds: "\<And>col t. (col, t) \<in> set (col_definition (columns example_users)) \<Longrightarrow>
        col_get (columns c') col 0 =
          Inr (if has_property [(''id'', VStr ''u1''), (''score'', VNum 9)] col
               then stored_value tn_nan (col_definition (columns example_users)) col
                      (get_property [(''id'', VStr ''u1''), (''score'', VNum 9)] col)
               else getDefaultValue t)"
    and meta: "js_read (created c') 0 = Some 3000" "js_read (updated c') 0 = Some 3000"
      "js_read (stale c') 0 = Some False"
    by blast
  have n: "col_get (columns c') ''name'' 0 = Inr (VStr [])"
    using flds [of "''name''" TString]
    by (simp add: example_schema has_property_def object_prototype_keys_def)
  have s: "col_get (columns c') ''score'' 0 = Inr (VNum 9)"
    using flds [of "''score''" TNumber]
    by (simp add: example_schema stored_value_def has_property_def get_property_def)
  show ?thesis
    using res reg n s meta by blast
qed

text \<open>
  C9 at a schema whose column is named \<open>constructor\<close>: the record \<open>a\<close> is in slot 0, and
  \<^verbatim>\<open>insert({id: 'a'})\<close> allocates no slot and resets the metadata, but the column the
  input omits does not get its default, the empty string: \<^verbatim>\<open>'constructor' in data\<close>
  is true for every plain object, and the inherited member is stored.
\<close>

theorem insert_inherited_key:
  "idToIndex (registry example_ctor) ''a'' = Some 0 \<and>
   fst (insert_record tn_nan example_ctor [(''id'', VStr ''a'')] 2000 ''g1'') = Inr ''a'' \<and>
   registry (snd (insert_record tn_nan example_ctor [(''id'', VStr ''a'')] 2000 ''g1''))
     = registry example_ctor \<and>
   js_read (created (snd (insert_record tn_nan example_ctor [(''id'', VStr ''a'')] 2000 ''g1''))) 0
     = Some 2000 \<and>
   getDefaultValue TString = VStr [] \<and>
   col_get (columns (snd (insert_record tn_nan example_ctor [(''id'', VStr ''a'')] 2000 ''g1'')))
     ''constructor'' 0 = Inr (VInherited ''constructor'')"
  by (simp add: example_ctor_def eval_defs has_property_def get_property_def
      object_prototype_keys_def)

section \<open>Vector search: proofs\<close>








subsection \<open>sort\<close>











subsection \<open>scores\<close>





subsection \<open>scan\<close>



subsection \<open>results\<close>







lemma docs_columns:
  "columns example_docs =
     \<lparr>col_definition = [(''embedding'', TVector 3)],
      column_map = (\<lambda>col. if col \<in> set (map fst [(''embedding'', TVector 3)]) then Some [] else None)
        (''embedding'' \<mapsto> [VVec [Num 1, Num 0, Num 0], VVec [Num (3 / 5), Num (4 / 5), Num 0],
                             VVec [Num 0, Num 0, Num 0]])\<rparr>"
  by (simp add: example_docs_def eval_defs)

lemma docs_indices: "getIndices example_docs = [0, 1, 2]"
  by (simp add: example_docs_def eval_defs getIndices_def getAllIndices_def)

lemma docs_get:
  "col_get (columns example_docs) ''embedding'' 0 = Inr (VVec [Num 1, Num 0, Num 0])"
  "col_get (columns example_docs) ''embedding'' (Suc 0) = Inr (VVec [Num (3 / 5), Num (4 / 5), Num 0])"
  "col_get (columns example_docs) ''embedding'' 2 = Inr (VVec [Num 0, Num 0, Num 0])"
  by (simp_all add: docs_columns col_get_def)

lemma docs_gather:
  "gather example_docs ''embedding'' None (getIndices example_docs) =
     Inr [(VVec [Num 1, Num 0, Num 0], 0), (VVec [Num (3 / 5), Num (4 / 5), Num 0], Suc 0),
          (VVec [Num 0, Num 0, Num 0], 2)]"
  by (simp add: docs_indices docs_get)

lemma upt3: "[0..<3] = [0, 1, 2]" "[0..<4] = [0, 1, 2, 3]"
  by (simp_all add: upt_rec)


lemma docs_batch_mismatch:
  "batchCosineSimilarity tn_nan [Num 1, Num 0, Num 0, Num 0]
     [(VVec [Num 1, Num 0, Num 0], 0), (VVec [Num (3 / 5), Num (4 / 5), Num 0], Suc 0),
          (VVec [Num 0, Num 0, Num 0], 2)] 10 = [(0, NaN), (Suc 0, NaN), (2, NaN)]"
  by (simp add: batchCosineSimilarity_def query_norm_def f32_read_def upt3 batch_step_def
      js_sort_def stays_before_def Let_def slice0_def)

lemma docs_records:
  "getByIndex example_docs 0 = Inr (Some doc1)"
  "getByIndex example_docs (Suc 0) = Inr (Some doc2)"
  "getByIndex example_docs 2 = Inr (Some doc3)"
  by (simp_all add: getByIndex_def buildRecord_def getRecord_def docs_columns col_get_def
      doc1_def doc2_def doc3_def)
    (simp_all add: example_docs_def eval_defs)

lemma docs_stale:
  "isStale example_docs ''d1'' = False" "isStale example_docs ''d2'' = False"
  "isStale example_docs ''d3'' = False"
  by (simp_all add: isStale_def example_docs_def eval_defs)

lemma docs_rids: "rid doc1 = ''d1''" "rid doc2 = ''d2''" "rid doc3 = ''d3''"
  by (simp_all add: doc1_def doc2_def doc3_def)



lemma docs_search_mismatch:
  "vectorSearch tn_nan example_docs ''embedding'' [Num 1, Num 0, Num 0, Num 0] default_options =
     Inr [\<lparr>res_record = doc1, res_similarity = NaN, res_stale = False\<rparr>,
          \<lparr>res_record = doc2, res_similarity = NaN, res_stale = False\<rparr>,
          \<lparr>res_record = doc3, res_similarity = NaN, res_stale = False\<rparr>]"
  by (simp add: vectorSearch_def docs_gather docs_batch_mismatch topK_or_default_def
      minSimilarity_or_default_def docs_records docs_stale docs_rids default_options_def)


lemma zero_vector_skipped:
  assumes len: "length query \<le> length zs" and zero: "\<forall>z \<in> set zs. z = 0"
    and q: "NaN \<notin> set query"
  shows "batch_scores tn query qn ((VVec (map Num zs), index) # rest) =
           batch_scores tn query qn rest"
proof -
  have rd: "vec_elem tn (VVec (map Num zs)) j = Num 0" if "j < length query" for j
    using that len zero by (simp add: f32_read_def)
  have qr: "\<exists>x. f32_read query j = Num x" if "j < length query" for j
  proof -
    have "query ! j \<in> set query" using that by simp
    then have "query ! j \<noteq> NaN" using q by metis
    then show ?thesis using that by (cases "query ! j") (simp_all add: f32_read_def)
  qed
  have "foldl (batch_step tn query (VVec (map Num zs))) (Num 0, Num 0) [0..<n] = (Num 0, Num 0)"
    if "n \<le> length query" for n
    using that
  proof (induction n)
    case 0
    then show ?case by simp
  next
    case (Suc n)
    then have n: "n < length query" by simp
    from qr [OF n] obtain x where x: "f32_read query n = Num x" by blast
    show ?case
      using Suc n x rd [OF n] by (simp add: batch_step_def)
  qed
  from this [of "length query"] show ?thesis by simp
qed

lemma zero_query_no_results:
  assumes "query_norm query = Num 0" and "vectorSearch tn c col query opts = Inr rs"
  shows "rs = []"
  using assms
  by (auto simp: vectorSearch_def batchCosineSimilarity_def Let_def split: sum.splits)



text \<open>
  C10 at a query of four components: the document in slot 2 holds the zero vector of
  the column's dimension, and the search returns it, with similarity NaN.
\<close>

theorem zero_vector_reported:
  "col_get (columns example_docs) ''embedding'' 2 = Inr (VVec [Num 0, Num 0, Num 0]) \<and>
   getByIndex example_docs 2 = Inr (Some doc3) \<and>
   vectorSearch tn_nan example_docs ''embedding'' [Num 1, Num 0, Num 0, Num 0] default_options =
     Inr [\<lparr>res_record = doc1, res_similarity = NaN, res_stale = False\<rparr>,
          \<lparr>res_record = doc2, res_similarity = NaN, res_stale = False\<rparr>,
          \<lparr>res_record = doc3, res_similarity = NaN, res_stale = False\<rparr>]"
  using docs_get(3) docs_records(3) docs_search_mismatch by simp



section \<open>Markdown codec: proofs\<close>

lemma show_1000: "number_string B 1000 = ''1000''"
  by (simp add: number_string_def show_int_def show_nat.simps)

lemma gen_empty:
  "generateMarkdown B empty_name_record [(''name'', TString)] None =
     join_newline [''---'', ''id: u1'', ''created: 1000'', ''updated: 1000'', ''name: '', ''---'', []]"
  by (simp add: generateMarkdown_def empty_name_record_def show_1000 needs_quotes_def
      startsWith_def record_get_def get_property_def)

lemma gen_digits:
  "generateMarkdown B digits_name_record [(''name'', TString)] None =
     join_newline [''---'', ''id: u2'', ''created: 1000'', ''updated: 1000'', ''name: 42'', ''---'', []]"
  by (simp add: generateMarkdown_def digits_name_record_def show_1000 needs_quotes_def
      startsWith_def record_get_def get_property_def)

lemmas codec_defs = parseMarkdown_def join_newline_def startsWith_def endsWith_def indexOf_def
  slice_def trim_def is_space_def parseYamlValue_def matches_integer_def matches_decimal_def
  all_digits_def is_digit_def parseInt_def digits_value_def digit_value_def unsigned_decimal_def
  Let_def

lemma parse_empty:
  "frontmatter (parseMarkdown B (join_newline
      [''---'', ''id: u1'', ''created: 1000'', ''updated: 1000'', ''name: '', ''---'', []])) ''name''
     = Some VNull"
  by (simp add: codec_defs)

lemma parse_empty_id:
  "frontmatter (parseMarkdown B (join_newline
      [''---'', ''id: u1'', ''created: 1000'', ''updated: 1000'', ''name: '', ''---'', []])) ''id''
     = Some (VStr ''u1'')"
  by (simp add: codec_defs)

lemma parse_empty_created:
  "frontmatter (parseMarkdown B (join_newline
      [''---'', ''id: u1'', ''created: 1000'', ''updated: 1000'', ''name: '', ''---'', []])) ''created''
     = Some (VNum 1000)"
  by (simp add: codec_defs)

lemma parse_digits:
  "frontmatter (parseMarkdown B (join_newline
      [''---'', ''id: u2'', ''created: 1000'', ''updated: 1000'', ''name: 42'', ''---'', []])) ''name''
     = Some (VNum 42)"
  by (simp add: codec_defs)

lemma yaml_roundtrip_simple:
  "parseYamlValue B (toYamlValue B (VBool b)) = VBool b"
  "parseYamlValue B (toYamlValue B VNull) = VNull"
  by (simp_all add: parseYamlValue_def)

text \<open>
  C2 at two records of the schema \<open>{name: 'string'}\<close>: the text generated for the record
  whose name is the empty string decodes with name \<^verbatim>\<open>null\<close>, and the text generated
  for the record whose name is the string \<open>42\<close> decodes with name the number 42; id
  and created come back as they were.
\<close>

theorem roundtrip_loses_strings:
  "record_get empty_name_record ''name'' = VStr [] \<and>
   frontmatter (parseMarkdown B (generateMarkdown B empty_name_record [(''name'', TString)] None))
     ''name'' = Some VNull \<and>
   frontmatter (parseMarkdown B (generateMarkdown B empty_name_record [(''name'', TString)] None))
     ''id'' = Some (VStr ''u1'') \<and>
   frontmatter (parseMarkdown B (generateMarkdown B empty_name_record [(''name'', TString)] None))
     ''created'' = Some (VNum 1000) \<and>
   record_get digits_name_record ''name'' = VStr ''42'' \<and>
   frontmatter (parseMarkdown B (generateMarkdown B digits_name_record [(''name'', TString)] None))
     ''name'' = Some (VNum 42)"
proof -
  have a: "record_get empty_name_record ''name'' = VStr []"
    and b: "record_get digits_name_record ''name'' = VStr ''42''"
    by (simp_all add: record_get_def get_property_def empty_name_record_def
        digits_name_record_def)
  show ?thesis
    using a b
    by (simp add: gen_empty gen_digits parse_empty parse_empty_id parse_empty_created parse_digits)
qed

section \<open>File watcher: proofs\<close>

lemma watch_callback_pending:
  assumes "\<forall>f \<in> pendingChanges w. endsWith f ''.md''"
  shows "\<forall>f \<in> pendingChanges (watch_callback w filename). endsWith f ''.md''"
  using assms by (simp add: watch_callback_def handleChange_def)

lemma debounce_fire_pending:
  assumes "\<forall>f \<in> pendingChanges w. endsWith f ''.md''"
  shows "\<forall>f \<in> pendingChanges (fst (debounce_fire opts w filename ex loaded)). endsWith f ''.md''"
  using assms
  by (auto simp: debounce_fire_def processChange_def Let_def split: option.splits)

text \<open>
  C8. When the debounce timer of a file \<open>F\<close> (a name ending in \<^verbatim>\<open>.md\<close>, as every name
  with a timer is) fires: if the id of \<open>F\<close> is being saved, no event is emitted and
  the known files are unchanged; otherwise, if \<open>F\<close> does not exist, a delete event is
  emitted exactly when \<open>F\<close> was known, and \<open>F\<close> is no longer known; and if \<open>F\<close> exists
  and decodes, the event is a create when \<open>F\<close> was not known and an update when it
  was, and \<open>F\<close> is known afterwards.
\<close>

theorem watcher_debounce_step:
  assumes md: "endsWith F ''.md''"
  shows "(filenameToId F \<in> savingIds w \<longrightarrow>
            snd (debounce_fire opts w F ex loaded) = None \<and>
            knownFiles (fst (debounce_fire opts w F ex loaded)) = knownFiles w) \<and>
         (filenameToId F \<notin> savingIds w \<longrightarrow> \<not> ex \<longrightarrow>
            snd (debounce_fire opts w F ex loaded) =
              (if F \<in> knownFiles w
               then Some \<lparr>ev_type = Delete, ev_id = filenameToId F, ev_filename = F,
                          ev_filepath = dirpath opts @ ''/'' @ F, ev_record = None,
                          ev_stale = False\<rparr>
               else None) \<and>
            knownFiles (fst (debounce_fire opts w F ex loaded)) = knownFiles w - {F}) \<and>
         (filenameToId F \<notin> savingIds w \<longrightarrow> ex \<longrightarrow> loaded = Some r \<longrightarrow>
            snd (debounce_fire opts w F ex loaded) =
              Some \<lparr>ev_type = (if F \<in> knownFiles w then Update else Create),
                    ev_id = filenameToId F, ev_filename = F,
                    ev_filepath = dirpath opts @ ''/'' @ F, ev_record = Some (snd r),
                    ev_stale = stale_of opts (filenameToId F) (snd r)\<rparr> \<and>
            knownFiles (fst (debounce_fire opts w F ex loaded)) = insert F (knownFiles w))"
  using md by (auto simp: debounce_fire_def processChange_def Let_def)

lemma md_names: "endsWith ''a.md'' ''.md''" "endsWith ''b.md'' ''.md''" "endsWith ''c.md'' ''.md''"
  by (simp_all add: endsWith_def)

lemma md_ids: "filenameToId ''a.md'' = ''a''" "filenameToId ''b.md'' = ''b''"
  "filenameToId ''c.md'' = ''c''"
  by (simp_all add: filenameToId_def endsWith_def)

theorem watcher_debounce_step_witness:
  "endsWith ''b.md'' ''.md'' \<and> filenameToId ''b.md'' \<in> savingIds example_watcher \<and>
   snd (debounce_fire example_watcher_options example_watcher ''b.md'' True None) = None \<and>
   knownFiles (fst (debounce_fire example_watcher_options example_watcher ''b.md'' True None))
     = {''a.md''} \<and>
   endsWith ''a.md'' ''.md'' \<and> filenameToId ''a.md'' \<notin> savingIds example_watcher \<and>
   snd (debounce_fire example_watcher_options example_watcher ''a.md'' False None) =
     Some \<lparr>ev_type = Delete, ev_id = ''a'', ev_filename = ''a.md'',
           ev_filepath = ''/data/users/a.md'', ev_record = None, ev_stale = False\<rparr> \<and>
   knownFiles (fst (debounce_fire example_watcher_options example_watcher ''a.md'' False None))
     = {} \<and>
   endsWith ''c.md'' ''.md'' \<and> filenameToId ''c.md'' \<notin> savingIds example_watcher \<and>
   snd (debounce_fire example_watcher_options example_watcher ''c.md'' True
          (Some (''c'', [(''id'', VStr ''c'')]))) =
     Some \<lparr>ev_type = Create, ev_id = ''c'', ev_filename = ''c.md'',
           ev_filepath = ''/data/users/c.md'', ev_record = Some [(''id'', VStr ''c'')],
           ev_stale = False\<rparr> \<and>
   knownFiles (fst (debounce_fire example_watcher_options example_watcher ''c.md'' True
          (Some (''c'', [(''id'', VStr ''c'')])))) = {''a.md'', ''c.md''}"
proof -
  have sav: "savingIds example_watcher = {''b''}" and kn: "knownFiles example_watcher = {''a.md''}"
    and dp: "dirpath example_watcher_options = ''/data/users''"
    by (simp_all add: example_watcher_def example_watcher_options_def)
  have st: "stale_of example_watcher_options ''c'' [(''id'', VStr ''c'')] = False"
    by (simp add: stale_of_def example_watcher_options_def)
  note b = watcher_debounce_step [OF md_names(2), of example_watcher example_watcher_options True None]
  note a = watcher_debounce_step [OF md_names(1), of example_watcher example_watcher_options False None]
  note c = watcher_debounce_step [OF md_names(3), of example_watcher example_watcher_options True
      "Some (''c'', [(''id'', VStr ''c'')])" "(''c'', [(''id'', VStr ''c'')])"]
  have B: "snd (debounce_fire example_watcher_options example_watcher ''b.md'' True None) = None"
    "knownFiles (fst (debounce_fire example_watcher_options example_watcher ''b.md'' True None))
     = {''a.md''}"
    using b by (simp_all add: md_ids sav kn)
  have A: "snd (debounce_fire example_watcher_options example_watcher ''a.md'' False None) =
     Some \<lparr>ev_type = Delete, ev_id = ''a'', ev_filename = ''a.md'',
           ev_filepath = ''/data/users/a.md'', ev_record = None, ev_stale = False\<rparr>"
    "knownFiles (fst (debounce_fire example_watcher_options example_watcher ''a.md'' False None))
     = {}"
    using a by (simp_all add: md_ids sav kn dp)
  have C: "snd (debounce_fire example_watcher_options example_watcher ''c.md'' True
          (Some (''c'', [(''id'', VStr ''c'')]))) =
     Some \<lparr>ev_type = Create, ev_id = ''c'', ev_filename = ''c.md'',
           ev_filepath = ''/data/users/c.md'', ev_record = Some [(''id'', VStr ''c'')],
           ev_stale = False\<rparr>"
    "knownFiles (fst (debounce_fire example_watcher_options example_watcher ''c.md'' True
          (Some (''c'', [(''id'', VStr ''c'')])))) = {''a.md'', ''c.md''}"
    using c by (simp_all add: md_ids sav kn dp st insert_commute)
  show ?thesis
    using A B C md_names by (simp add: md_ids sav)
qed

end
